theory Spec2Isabelle
  imports Complex_Main "HOL-Library.Sublist"
begin

text \<open>
  A model of \<open>ws.py\<close>, a relay that accepts a connection, picks a target from an
  \<open>X-Real-Host\<close> header or from the binding's default, answers with a fixed response
  and then copies bytes between the client and the target. Modelled are the
  command-line overrides of \<open>load_config\<close>, \<open>ConnectionHandler.parse_headers\<close>,
  \<open>run\<close>, \<open>connect_target\<close>, \<open>close\<close> and \<open>tunnel\<close>. Reading the JSON file, option
  parsing, the accept loop of \<open>Server\<close> and the threads are left out.
\<close>

section \<open>Python values used by ws.py\<close>

text \<open>
  The exceptions that the modelled code can meet. All of them are subclasses of
  Python's \<open>Exception\<close>, so \<open>except Exception\<close> and a bare \<open>except\<close> catch each of them.
\<close>

datatype exn =
    BlockingIOError
  | OSError
  | UnicodeDecodeError
  | UnicodeEncodeError
  | IndexError
  | ValueError
  | AttributeError

text \<open>
  A \<open>bytes\<close> object is a list of 8-bit characters. A Python \<open>str\<close> is a list of Unicode
  code points, here natural numbers; \<open>str ''abc''\<close> writes an ASCII literal of the source.
\<close>

type_synonym bytes = string
type_synonym pystr = "nat list"

abbreviation (input) str :: "string \<Rightarrow> pystr" where
  "str s \<equiv> map of_char s"

definition CRLF :: pystr where
  "CRLF = [13, 10]"

subsection \<open>bytes.decode() and str.encode(): strict UTF-8\<close>

definition cont :: "nat \<Rightarrow> bool" where
  "cont c = (128 \<le> c \<and> c \<le> 191)"

text \<open>
  The well-formed byte sequences of UTF-8: no overlong form, no surrogate
  (U+D800..U+DFFF), nothing above U+10FFFF. Any other byte sequence makes
  \<open>decode\<close> raise \<open>UnicodeDecodeError\<close>.
\<close>

fun utf8_decode :: "nat list \<Rightarrow> nat list option" where
  "utf8_decode [] = Some []"
| "utf8_decode (b # bs) =
     (if b < 128 then map_option ((#) b) (utf8_decode bs)
      else (case bs of
          [] \<Rightarrow> None
        | c1 # bs1 \<Rightarrow>
            if 194 \<le> b \<and> b \<le> 223 then
              (if cont c1
               then map_option ((#) ((b - 192) * 64 + (c1 - 128))) (utf8_decode bs1)
               else None)
            else (case bs1 of
                [] \<Rightarrow> None
              | c2 # bs2 \<Rightarrow>
                  if 224 \<le> b \<and> b \<le> 239 then
                    (if cont c1 \<and> cont c2 \<and> (b = 224 \<longrightarrow> 160 \<le> c1) \<and> (b = 237 \<longrightarrow> c1 \<le> 159)
                     then map_option
                       ((#) ((b - 224) * 4096 + (c1 - 128) * 64 + (c2 - 128)))
                       (utf8_decode bs2)
                     else None)
                  else (case bs2 of
                      [] \<Rightarrow> None
                    | c3 # bs3 \<Rightarrow>
                        if 240 \<le> b \<and> b \<le> 244 \<and> cont c1 \<and> cont c2 \<and> cont c3
                           \<and> (b = 240 \<longrightarrow> 144 \<le> c1) \<and> (b = 244 \<longrightarrow> c1 \<le> 143)
                        then map_option
                          ((#) ((b - 240) * 262144 + (c1 - 128) * 4096
                                + (c2 - 128) * 64 + (c3 - 128)))
                          (utf8_decode bs3)
                        else None))))"

definition decode :: "bytes \<Rightarrow> exn + pystr" where
  "decode data =
     (case utf8_decode (map of_char data) of
        None \<Rightarrow> Inl UnicodeDecodeError
      | Some t \<Rightarrow> Inr t)"

definition utf8_encode_char :: "nat \<Rightarrow> nat list option" where
  "utf8_encode_char c =
     (if c < 128 then Some [c]
      else if c < 2048 then Some [192 + c div 64, 128 + c mod 64]
      else if 55296 \<le> c \<and> c \<le> 57343 then None
      else if c < 65536 then
        Some [224 + c div 4096, 128 + (c div 64) mod 64, 128 + c mod 64]
      else if c < 1114112 then
        Some [240 + c div 262144, 128 + (c div 4096) mod 64,
              128 + (c div 64) mod 64, 128 + c mod 64]
      else None)"

fun utf8_encode :: "nat list \<Rightarrow> nat list option" where
  "utf8_encode [] = Some []"
| "utf8_encode (c # cs) =
     (case utf8_encode_char c of
        None \<Rightarrow> None
      | Some bs \<Rightarrow> map_option ((@) bs) (utf8_encode cs))"

definition encode :: "pystr \<Rightarrow> exn + bytes" where
  "encode s =
     (case utf8_encode s of
        None \<Rightarrow> Inl UnicodeEncodeError
      | Some bs \<Rightarrow> Inr (map char_of bs))"

subsection \<open>str.split, str.lower, str.strip\<close>

text \<open>
  \<open>s.split(sep)\<close> for a non-empty separator: the pieces between the occurrences of
  \<open>sep\<close>, found from the left without overlap. The source only passes non-empty
  literals (Python raises \<open>ValueError\<close> on an empty one); with an empty separator the
  model never cuts.
\<close>

fun split_all :: "'a list \<Rightarrow> 'a list \<Rightarrow> 'a list list" where
  "split_all sep [] = [[]]"
| "split_all sep (x # xs) =
     (if sep \<noteq> [] \<and> prefix sep (x # xs)
      then [] # split_all sep (drop (length sep) (x # xs))
      else (case split_all sep xs of
              [] \<Rightarrow> [[x]]
            | l # ls \<Rightarrow> (x # l) # ls))"

text \<open>\<open>s.split(sep, 1)\<close>: at most one cut, at the first occurrence of \<open>sep\<close>.\<close>

fun split1 :: "'a list \<Rightarrow> 'a list \<Rightarrow> 'a list list" where
  "split1 sep [] = [[]]"
| "split1 sep (x # xs) =
     (if sep \<noteq> [] \<and> prefix sep (x # xs)
      then [[], drop (length sep) (x # xs)]
      else (case split1 sep xs of
              [] \<Rightarrow> [[x]]
            | l # ls \<Rightarrow> (x # l) # ls))"

text \<open>\<open>xs[i]\<close> for a literal index \<open>i \<ge> 0\<close>: \<open>IndexError\<close> out of range.\<close>

definition getitem :: "'a list \<Rightarrow> nat \<Rightarrow> exn + 'a" where
  "getitem xs i = (if i < length xs then Inr (xs ! i) else Inl IndexError)"

text \<open>
  \<open>str.lower()\<close> on the ASCII letters. Python also lowercases letters outside ASCII, but
  maps none of them to a character of \<open>'x-real-host:'\<close> (only U+0130 and U+212A have
  an ASCII character in their lowercase form, \<open>i\<close> and \<open>k\<close>), so the prefix test of
  \<open>parse_headers\<close> gives the same answer.
\<close>

definition lower_char :: "nat \<Rightarrow> nat" where
  "lower_char c = (if 65 \<le> c \<and> c \<le> 90 then c + 32 else c)"

definition lower :: "pystr \<Rightarrow> pystr" where
  "lower s = map lower_char s"

definition startswith :: "pystr \<Rightarrow> pystr \<Rightarrow> bool" where
  "startswith s p = prefix p s"

text \<open>The characters \<open>str.isspace()\<close> accepts, which \<open>str.strip()\<close> removes.\<close>

definition isspace :: "nat \<Rightarrow> bool" where
  "isspace c =
     ((9 \<le> c \<and> c \<le> 13) \<or> (28 \<le> c \<and> c \<le> 32) \<or> c = 133 \<or> c = 160 \<or> c = 5760
      \<or> (8192 \<le> c \<and> c \<le> 8202) \<or> c = 8232 \<or> c = 8233 \<or> c = 8239 \<or> c = 8287
      \<or> c = 12288)"

definition strip :: "pystr \<Rightarrow> pystr" where
  "strip s = rev (dropWhile isspace (rev (dropWhile isspace s)))"

subsection \<open>int(str)\<close>

text \<open>
  \<open>int(s)\<close> in base 10, as CPython 3.11 reads it: white space around the literal is
  skipped (the ASCII characters \<open>\t \n \v \f \r\<close> and space, and the white space
  outside ASCII), then an optional sign, then decimal digits with single underscores
  between digits. A digit is any character of Unicode's category Nd; the blocks of ten
  are listed by their zero (Unicode 14). A literal of more than 4300 digits is refused
  (the interpreter's default limit for string conversion). Every refusal is a
  \<open>ValueError\<close>.
\<close>

definition decimal_zeros :: "nat list" where
  "decimal_zeros =
     [48, 1632, 1776, 1984, 2406, 2534, 2662, 2790, 2918, 3046, 3174, 3302, 3430, 3558,
      3664, 3792, 3872, 4160, 4240, 6112, 6160, 6470, 6608, 6784, 6800, 6992, 7088, 7232,
      7248, 42528, 43216, 43264, 43472, 43504, 43600, 44016, 65296, 66720, 68912, 69734,
      69872, 69942, 70096, 70384, 70736, 70864, 71248, 71360, 71472, 71904, 72016, 72784,
      73040, 73120, 92768, 92864, 93008, 120782, 120792, 120802, 120812, 120822, 123200,
      123632, 125264, 130032]"

definition decimal :: "nat \<Rightarrow> nat option" where
  "decimal c =
     (case List.find (\<lambda>z. z \<le> c \<and> c < z + 10) decimal_zeros of
        None \<Rightarrow> None
      | Some z \<Rightarrow> Some (c - z))"

definition int_space :: "nat \<Rightarrow> bool" where
  "int_space c = ((9 \<le> c \<and> c \<le> 13) \<or> c = 32 \<or> (128 \<le> c \<and> isspace c))"

fun digits_value :: "nat \<Rightarrow> pystr \<Rightarrow> nat option" where
  "digits_value acc [] = Some acc"
| "digits_value acc (c # cs) =
     (if c = 95 then
        (case cs of
           [] \<Rightarrow> None
         | d # ds \<Rightarrow>
             (case decimal d of
                None \<Rightarrow> None
              | Some v \<Rightarrow> digits_value (10 * acc + v) ds))
      else
        (case decimal c of
           None \<Rightarrow> None
         | Some v \<Rightarrow> digits_value (10 * acc + v) cs))"

definition int_max_str_digits :: nat where
  "int_max_str_digits = 4300"

definition py_int :: "pystr \<Rightarrow> exn + int" where
  "py_int s =
     (let t = rev (dropWhile int_space (rev (dropWhile int_space s)));
          negative = (case t of [] \<Rightarrow> False | c # _ \<Rightarrow> c = 45);
          u = (case t of [] \<Rightarrow> [] | c # r \<Rightarrow> if c = 45 \<or> c = 43 then r else t)
      in if int_max_str_digits < length (filter (\<lambda>c. c \<noteq> 95) u) then Inl ValueError
         else
           (case u of
              [] \<Rightarrow> Inl ValueError
            | c # cs \<Rightarrow>
                (case decimal c of
                   None \<Rightarrow> Inl ValueError
                 | Some v \<Rightarrow>
                     (case digits_value v cs of
                        None \<Rightarrow> Inl ValueError
                      | Some n \<Rightarrow> Inr (if negative then - int n else int n)))))"

section \<open>Configuration\<close>

definition DEFAULT_BIND_ADDR :: pystr where
  "DEFAULT_BIND_ADDR = str ''0.0.0.0''"

definition DEFAULT_BIND_PORT :: int where
  "DEFAULT_BIND_PORT = 8880"

definition DEFAULT_LISTEN_HOST :: pystr where
  "DEFAULT_LISTEN_HOST = str ''127.0.0.1''"

definition DEFAULT_LISTEN_PORT :: int where
  "DEFAULT_LISTEN_PORT = 22"

definition BUFFER_SIZE :: nat where
  "BUFFER_SIZE = 4096 * 4"

definition TIMEOUT :: real where
  "TIMEOUT = 60"

definition RESPONSE :: pystr where
  "RESPONSE = str ''HTTP/1.1 101 Switching Protocols'' @ CRLF @ str ''Upgrade: websocket''
     @ CRLF @ str ''Connection: Upgrade'' @ CRLF @ CRLF"

datatype binding = Binding (address: pystr) (port: int)

datatype listening = Listening (host: pystr) (port: int)

record config =
  bindings :: "binding list"
  listenings :: "listening list"
  buffer :: nat
  timeout :: real
  response :: pystr

text \<open>\<open>Config()\<close>: the constructor's defaults.\<close>

definition Config :: config where
  "Config = \<lparr>bindings = [], listenings = [], buffer = BUFFER_SIZE, timeout = TIMEOUT,
     response = RESPONSE\<rparr>"

subsection \<open>load_config: the command-line overrides\<close>

text \<open>\<open>while len(xs) <= index: xs.append(d)\<close>\<close>

function append_while :: "'a \<Rightarrow> int \<Rightarrow> 'a list \<Rightarrow> 'a list" where
  "append_while d index xs =
     (if int (length xs) \<le> index then append_while d index (xs @ [d]) else xs)"
  by pat_completeness auto
termination
  by (relation "measure (\<lambda>(d, index, xs). nat (index + 1 - int (length xs)))") auto

declare append_while.simps [simp del]

text \<open>
  \<open>xs[index] = v\<close> on a Python list: a negative index counts from the end, and an
  index outside the list raises \<open>IndexError\<close>.
\<close>

definition setitem :: "'a list \<Rightarrow> int \<Rightarrow> 'a \<Rightarrow> exn + 'a list" where
  "setitem xs index v =
     (let n = int (length xs);
          j = (if index < 0 then index + n else index)
      in if 0 \<le> j \<and> j < n then Inr (xs[nat j := v]) else Inl IndexError)"

text \<open>
  One of the two loops \<open>for index, a, port in cmd_...\<close>, with \<open>d\<close> the default entry
  it appends and each override already built (\<open>Binding(addr, port)\<close> or
  \<open>Listening(host, port)\<close>). The overrides are applied in the order given.
\<close>

fun override :: "'a \<Rightarrow> 'a list \<Rightarrow> (int \<times> 'a) list \<Rightarrow> exn + 'a list" where
  "override d xs [] = Inr xs"
| "override d xs ((index, v) # rest) =
     (case setitem (append_while d index xs) index v of
        Inl e \<Rightarrow> Inl e
      | Inr ys \<Rightarrow> override d ys rest)"

text \<open>
  \<open>load_config\<close> after the optional JSON file has been read into \<open>file_config\<close>
  (\<open>Config\<close> when no file is given). \<open>cmd_bind\<close> and \<open>cmd_listen\<close> are the triples
  \<open>parse_indexed_arg\<close> returned. An exception raised here is not caught by the source.
\<close>

definition load_config ::
  "config \<Rightarrow> (int \<times> pystr \<times> int) list \<Rightarrow> (int \<times> pystr \<times> int) list \<Rightarrow> exn + config" where
  "load_config file_config cmd_bind cmd_listen =
     (case override (Binding DEFAULT_BIND_ADDR DEFAULT_BIND_PORT) (bindings file_config)
             (map (\<lambda>(index, addr, p). (index, Binding addr p)) cmd_bind) of
        Inl e \<Rightarrow> Inl e
      | Inr bs \<Rightarrow>
          (case override (Listening DEFAULT_LISTEN_HOST DEFAULT_LISTEN_PORT)
                  (listenings file_config)
                  (map (\<lambda>(index, h, p). (index, Listening h p)) cmd_listen) of
             Inl e \<Rightarrow> Inl e
           | Inr ls \<Rightarrow> Inr (file_config\<lparr>bindings := bs, listenings := ls\<rparr>)))"

section \<open>ConnectionHandler.parse_headers\<close>

text \<open>
  The body of the \<open>if\<close> inside the loop over the header lines, for a line \<open>h\<close> that
  starts with the routing header's name: the value after the first \<open>': '\<close>, stripped,
  is \<open>host:port\<close> or \<open>host\<close>. \<open>Inl\<close> is the exception the statement raises.
\<close>

definition routing_line :: "listening \<Rightarrow> pystr \<Rightarrow> exn + (pystr \<times> int)" where
  "routing_line l h =
     (case getitem (split1 (str '': '') h) 1 of
        Inl e \<Rightarrow> Inl e
      | Inr v \<Rightarrow>
          (let host_port = strip v in
           if 58 \<in> set host_port then
             (case split1 (str '':'') host_port of
                [h1, p1] \<Rightarrow>
                  (case py_int p1 of
                     Inl e \<Rightarrow> Inl e
                   | Inr n \<Rightarrow> Inr (h1, n))
              | _ \<Rightarrow> Inl ValueError)
           else Inr (host_port, listening.port l)))"

text \<open>
  The loop \<open>for h in headers\<close>: the first line that starts with \<open>x-real-host:\<close> (in
  lower case) returns or raises; \<open>Inr None\<close> is the loop running to its end.
\<close>

fun scan_headers :: "listening \<Rightarrow> pystr list \<Rightarrow> exn + (pystr \<times> int) option" where
  "scan_headers l [] = Inr None"
| "scan_headers l (h # hs) =
     (if startswith (lower h) (str ''x-real-host:'')
      then (case routing_line l h of
              Inl e \<Rightarrow> Inl e
            | Inr r \<Rightarrow> Inr (Some r))
      else scan_headers l hs)"

text \<open>The \<open>try\<close> block of \<open>parse_headers\<close>.\<close>

definition parse_headers_try :: "listening \<Rightarrow> bytes \<Rightarrow> exn + (pystr \<times> int) option" where
  "parse_headers_try l data =
     (case decode data of
        Inl e \<Rightarrow> Inl e
      | Inr t \<Rightarrow> scan_headers l (split_all CRLF t))"

text \<open>
  \<open>parse_headers\<close>: the bare \<open>except: pass\<close> turns every exception of the \<open>try\<close> block
  into the final \<open>return (None, None)\<close>, which is \<open>None\<close> here.
\<close>

definition parse_headers :: "listening \<Rightarrow> bytes \<Rightarrow> (pystr \<times> int) option" where
  "parse_headers l data =
     (case parse_headers_try l data of
        Inl e \<Rightarrow> None
      | Inr r \<Rightarrow> r)"

text \<open>
  The target chosen in \<open>run\<close>: \<open>if not target_host\<close> holds for \<open>None\<close> and for the empty
  string, and then both the host and the port are the binding's listening.
\<close>

definition resolve_target :: "listening \<Rightarrow> bytes \<Rightarrow> pystr \<times> int" where
  "resolve_target l data =
     (case parse_headers l data of
        None \<Rightarrow> (listening.host l, listening.port l)
      | Some (target_host, target_port) \<Rightarrow>
          if target_host = [] then (listening.host l, listening.port l)
          else (target_host, target_port))"

section \<open>The environment of a session\<close>

text \<open>
  A session talks to two sockets, \<open>self.client\<close> and \<open>self.target\<close>. What the sockets,
  the clock and \<open>select\<close> answer is not decided by the program: the model takes the
  answers from an environment and records every call in a list of events.
\<close>

datatype sock = Client | Target

definition other :: "sock \<Rightarrow> sock" where
  "other sk = (case sk of Client \<Rightarrow> Target | Target \<Rightarrow> Client)"

text \<open>
  \<open>recv\<close> and \<open>recv_into\<close> return the bytes read (none: the peer has closed its side) or
  raise. \<open>sendall\<close> on a non-blocking socket writes everything, or raises after it has
  written the given number of bytes (\<open>BlockingIOError\<close> when the socket's buffer is
  full).
\<close>

datatype recv_outcome = Received bytes | RecvRaises exn

datatype send_outcome = Sent | SendRaises nat exn

datatype event =
    Recv sock recv_outcome
  | SocketCreate "exn option"
  | Connect pystr int "exn option"
  | Handshake bytes "exn option"
  | SendAll sock bytes send_outcome
  | Close sock "exn option"
  | LogConnected pystr int
  | LogError exn
  | LogTunnelError exn

text \<open>
  One pass of the relay loop as the environment answers it: what \<open>select.select\<close>
  returns (the read-ready, write-ready and error lists) or raises, what \<open>time.time()\<close>
  returns (a real number; the rounding of floats is left out), and what a
  \<open>recv_into\<close> on a socket and a \<open>sendall\<close> to a socket do during this pass.
\<close>

record iteration =
  select :: "exn + (sock list \<times> sock list \<times> sock list)"
  clock :: real
  recv_into :: "sock \<Rightarrow> recv_outcome"
  sendall :: "sock \<Rightarrow> send_outcome"

text \<open>
  The environment of one session: the first \<open>recv\<close> on the client, the creation of
  the target socket and its \<open>connect\<close>, the \<open>send\<close> of the response, the clock when
  the tunnel starts, the passes of the relay loop, and whether the \<open>k\<close>-th call of
  \<open>close()\<close> meets an exception on a socket. A script that ends before the loop has
  left stands for a session that is still relaying.
\<close>

record env =
  first_recv :: recv_outcome
  socket_create :: "exn option"
  connect :: "pystr \<Rightarrow> int \<Rightarrow> exn option"
  client_send :: "exn option"
  start_time :: real
  script :: "iteration list"
  close_raises :: "nat \<Rightarrow> sock \<Rightarrow> exn option"

section \<open>ConnectionHandler.tunnel\<close>

text \<open>The local variables of \<open>tunnel\<close> that change, and the events so far.\<close>

record relay =
  last_activity :: real
  client_buffer :: bytes
  target_buffer :: bytes
  events :: "event list"

definition buffer_of :: "sock \<Rightarrow> relay \<Rightarrow> bytes" where
  "buffer_of sk s = (case sk of Client \<Rightarrow> client_buffer s | Target \<Rightarrow> target_buffer s)"

text \<open>\<open>recv_into\<close> writes the bytes it read at the start of the socket's buffer.\<close>

definition recv_store :: "sock \<Rightarrow> bytes \<Rightarrow> relay \<Rightarrow> relay" where
  "recv_store sk got s =
     (case sk of
        Client \<Rightarrow> s\<lparr>client_buffer := got @ drop (length got) (client_buffer s)\<rparr>
      | Target \<Rightarrow> s\<lparr>target_buffer := got @ drop (length got) (target_buffer s)\<rparr>)"

definition emit :: "event \<Rightarrow> relay \<Rightarrow> relay" where
  "emit ev s = s\<lparr>events := events s @ [ev]\<rparr>"

text \<open>How the body of \<open>for sock in r\<close> leaves: on to the next socket, \<open>break\<close>, or an
  exception that the inner \<open>except BlockingIOError\<close> does not catch.\<close>

datatype control = Continue | Break | Raise exn

text \<open>
  The body of \<open>for sock in r\<close> for the socket \<open>src\<close>; the two branches of the source
  (\<open>sock is self.client\<close>, \<open>sock is self.target\<close>) differ only in which socket and
  buffer they read and which socket they write. The whole \<open>try\<close> block, the \<open>sendall\<close>
  included, stands under \<open>except BlockingIOError: continue\<close>. \<open>recv_into\<close> reads at
  most \<open>buffer_size\<close> bytes.
\<close>

definition forward :: "config \<Rightarrow> iteration \<Rightarrow> sock \<Rightarrow> relay \<Rightarrow> relay \<times> control" where
  "forward cfg it src s =
     (case recv_into it src of
        RecvRaises e \<Rightarrow>
          (emit (Recv src (RecvRaises e)) s,
           if e = BlockingIOError then Continue else Raise e)
      | Received avail \<Rightarrow>
          (let got = take (buffer cfg) avail;
               recv_len = length got;
               s1 = emit (Recv src (Received got)) (recv_store src got s)
           in if recv_len \<noteq> 0 then
                (let s2 = s1\<lparr>last_activity := clock it\<rparr>;
                     chunk = take recv_len (buffer_of src s2)
                 in case sendall it (other src) of
                      Sent \<Rightarrow> (emit (SendAll (other src) chunk Sent) s2, Continue)
                    | SendRaises k e \<Rightarrow>
                        (emit (SendAll (other src) chunk (SendRaises k e)) s2,
                         if e = BlockingIOError then Continue else Raise e))
              else (s1, Break)))"

text \<open>\<open>for sock in r\<close>: \<open>break\<close> leaves this loop, and only this loop.\<close>

fun for_ready :: "config \<Rightarrow> iteration \<Rightarrow> sock list \<Rightarrow> relay \<Rightarrow> relay \<times> exn option" where
  "for_ready cfg it [] s = (s, None)"
| "for_ready cfg it (sk # rest) s =
     (case forward cfg it sk s of
        (s1, Continue) \<Rightarrow> for_ready cfg it rest s1
      | (s1, Break) \<Rightarrow> (s1, None)
      | (s1, Raise e) \<Rightarrow> (s1, Some e))"

text \<open>
  \<open>while True\<close>, one pass per element of the script. The result is the state and, when
  the loop has left, the value of \<open>error\<close>; \<open>None\<close> when the script ends first.
\<close>

fun tunnel_loop :: "config \<Rightarrow> iteration list \<Rightarrow> relay \<Rightarrow> relay \<times> bool option" where
  "tunnel_loop cfg [] s = (s, None)"
| "tunnel_loop cfg (it # its) s =
     (case select it of
        Inl ex \<Rightarrow> (emit (LogTunnelError ex) s, Some True)
      | Inr (r, w, e) \<Rightarrow>
          if e \<noteq> [] then (s, Some True)
          else if clock it - last_activity s > timeout cfg then (s, Some False)
          else
            (case (if r \<noteq> [] then for_ready cfg it r s else (s, None)) of
               (s1, Some ex) \<Rightarrow> (emit (LogTunnelError ex) s1, Some True)
             | (s1, None) \<Rightarrow>
                 if r = [] \<and> w = [] then (s1, Some False)
                 else tunnel_loop cfg its s1))"

text \<open>
  \<open>close()\<close>: each of the two \<open>close\<close> calls stands in a \<open>try\<close> of its own with a bare
  \<open>except: pass\<close>. The event keeps the exception that was swallowed. While
  \<open>self.target\<close> is still \<open>None\<close> the second call raises \<open>AttributeError\<close>.
\<close>

definition close :: "env \<Rightarrow> nat \<Rightarrow> bool \<Rightarrow> event list" where
  "close en k has_target =
     [Close Client (close_raises en k Client),
      Close Target (if has_target then close_raises en k Target else Some AttributeError)]"

text \<open>
  \<open>tunnel()\<close>: the two buffers of \<open>buffer_size\<close> zero bytes, the loop, and the
  \<open>close()\<close> under \<open>if error\<close>. The result is the events and the loop's outcome.
  The statements before the loop (\<open>bytearray\<close>, \<open>memoryview\<close>, \<open>time.time\<close>,
  \<open>setblocking\<close>) are taken not to raise.
\<close>

definition tunnel :: "config \<Rightarrow> env \<Rightarrow> event list \<times> bool option" where
  "tunnel cfg en =
     (let s0 = \<lparr>last_activity = start_time en,
                client_buffer = replicate (buffer cfg) (CHR 0x00),
                target_buffer = replicate (buffer cfg) (CHR 0x00),
                events = []\<rparr>;
          (s, outcome) = tunnel_loop cfg (script en) s0
      in (events s @ (if outcome = Some True then close en 0 True else []), outcome))"

section \<open>ConnectionHandler.run\<close>

text \<open>
  \<open>connect_target\<close>: the events, whether \<open>self.target\<close> has been assigned (it is
  assigned before \<open>connect\<close> is called), and the exception raised, if any.
\<close>

definition connect_target :: "env \<Rightarrow> pystr \<Rightarrow> int \<Rightarrow> event list \<times> bool \<times> exn option" where
  "connect_target en h p =
     (case socket_create en of
        Some e \<Rightarrow> ([SocketCreate (Some e)], False, Some e)
      | None \<Rightarrow>
          (case connect en h p of
             Some e \<Rightarrow> ([SocketCreate None, Connect h p (Some e)], True, Some e)
           | None \<Rightarrow> ([SocketCreate None, Connect h p None, LogConnected h p], True, None)))"

record session =
  trace :: "event list"
  finished :: bool

text \<open>
  The end of \<open>run\<close>: \<open>except Exception\<close> logs the exception of the \<open>try\<close> block, if
  there was one, and \<open>finally\<close> calls \<open>close()\<close>; \<open>k\<close> counts the calls of \<open>close()\<close>
  made before. \<open>printlog\<close> is taken not to raise.
\<close>

definition finish :: "env \<Rightarrow> event list \<Rightarrow> exn option \<Rightarrow> bool \<Rightarrow> nat \<Rightarrow> session" where
  "finish en evs raised has_target k =
     \<lparr>trace = evs @ (case raised of None \<Rightarrow> [] | Some e \<Rightarrow> [LogError e]) @ close en k has_target,
      finished = True\<rparr>"

text \<open>
  \<open>run\<close>. \<open>recv(bufsize)\<close> returns at most \<open>bufsize\<close> bytes; the return value of
  \<open>send\<close> is ignored by the source.
\<close>

definition run :: "config \<Rightarrow> listening \<Rightarrow> env \<Rightarrow> session" where
  "run cfg l en =
     (case first_recv en of
        RecvRaises e \<Rightarrow> finish en [Recv Client (RecvRaises e)] (Some e) False 0
      | Received avail \<Rightarrow>
          (let data = take (buffer cfg) avail;
               evs1 = [Recv Client (Received data)]
           in if data = [] then finish en evs1 None False 0
              else
                (case resolve_target l data of
                   (target_host, target_port) \<Rightarrow>
                     (case connect_target en target_host target_port of
                        (evs2, has_target, Some e) \<Rightarrow>
                          finish en (evs1 @ evs2) (Some e) has_target 0
                      | (evs2, has_target, None) \<Rightarrow>
                          (case encode (response cfg) of
                             Inl e \<Rightarrow> finish en (evs1 @ evs2) (Some e) has_target 0
                           | Inr resp \<Rightarrow>
                               (case client_send en of
                                  Some e \<Rightarrow>
                                    finish en (evs1 @ evs2 @ [Handshake resp (Some e)])
                                      (Some e) has_target 0
                                | None \<Rightarrow>
                                    (case tunnel cfg en of
                                       (evs3, None) \<Rightarrow>
                                         \<lparr>trace = evs1 @ evs2 @ [Handshake resp None] @ evs3,
                                          finished = False\<rparr>
                                     | (evs3, Some error) \<Rightarrow>
                                         finish en
                                           (evs1 @ evs2 @ [Handshake resp None] @ evs3)
                                           None has_target (if error then 1 else 0))))))))"

section \<open>What the sockets have seen\<close>

text \<open>The bytes that the reads on a socket returned, and the bytes that a socket took
  from the writes to it, in the order of the events.\<close>

fun received_from :: "sock \<Rightarrow> event list \<Rightarrow> bytes" where
  "received_from sk [] = []"
| "received_from sk (Recv sk' (Received bs) # evs) =
     (if sk' = sk then bs @ received_from sk evs else received_from sk evs)"
| "received_from sk (ev # evs) = received_from sk evs"

fun written_to :: "sock \<Rightarrow> event list \<Rightarrow> bytes" where
  "written_to sk [] = []"
| "written_to sk (SendAll sk' bs Sent # evs) =
     (if sk' = sk then bs @ written_to sk evs else written_to sk evs)"
| "written_to sk (SendAll sk' bs (SendRaises k e) # evs) =
     (if sk' = sk then take k bs @ written_to sk evs else written_to sk evs)"
| "written_to sk (ev # evs) = written_to sk evs"

section \<open>Example inputs\<close>

text \<open>Concrete inputs on which the theorems below are instantiated.\<close>

definition example_listening :: listening where
  "example_listening = Listening (str ''10.0.0.5'') 443"

definition chunk_with_port :: bytes where
  "chunk_with_port = ''GET / HTTP/1.1'' @ [CHR 0x0D, CHR 0x0A] @ ''Host: a.b''
     @ [CHR 0x0D, CHR 0x0A] @ ''x-REAL-host: example.org:2222''
     @ [CHR 0x0D, CHR 0x0A, CHR 0x0D, CHR 0x0A]"

definition chunk_without_port :: bytes where
  "chunk_without_port = ''GET / HTTP/1.1'' @ [CHR 0x0D, CHR 0x0A]
     @ ''X-Real-Host: example.org'' @ [CHR 0x0D, CHR 0x0A, CHR 0x0D, CHR 0x0A]"

definition chunk_no_header :: bytes where
  "chunk_no_header = ''GET / HTTP/1.1'' @ [CHR 0x0D, CHR 0x0A] @ ''Host: a.b''
     @ [CHR 0x0D, CHR 0x0A, CHR 0x0D, CHR 0x0A]"

definition chunk_bad_then_good :: bytes where
  "chunk_bad_then_good = ''X-Real-Host: first.example:http'' @ [CHR 0x0D, CHR 0x0A]
     @ ''X-Real-Host: second.example:82'' @ [CHR 0x0D, CHR 0x0A, CHR 0x0D, CHR 0x0A]"

definition chunk_good_then_good :: bytes where
  "chunk_good_then_good = ''X-Real-Host: first.example:81'' @ [CHR 0x0D, CHR 0x0A]
     @ ''X-Real-Host: second.example:82'' @ [CHR 0x0D, CHR 0x0A, CHR 0x0D, CHR 0x0A]"

definition example_config :: config where
  "example_config = Config\<lparr>buffer := 128\<rparr>"

definition example_env :: env where
  "example_env =
     \<lparr>first_recv = Received chunk_with_port, socket_create = None,
      connect = (\<lambda>h p. None), client_send = None, start_time = 0, script = [],
      close_raises = (\<lambda>k sk. None)\<rparr>"

definition select_raises_pass :: iteration where
  "select_raises_pass =
     \<lparr>select = Inl OSError, clock = 1, recv_into = (\<lambda>sk. Received []),
      sendall = (\<lambda>sk. Sent)\<rparr>"

definition chunk_not_utf8 :: bytes where
  "chunk_not_utf8 = ''X-Real-Host: example.org:2222'' @ [CHR 0xFF, CHR 0x0D, CHR 0x0A]"

definition chunk_no_separator :: bytes where
  "chunk_no_separator = ''X-Real-Host:example.org:2222'' @ [CHR 0x0D, CHR 0x0A]"

definition small_config :: config where
  "small_config = Config\<lparr>buffer := 4\<rparr>"

definition idle_pass :: "real \<Rightarrow> iteration" where
  "idle_pass t =
     \<lparr>select = Inr ([], [Client, Target], []), clock = t,
      recv_into = (\<lambda>sk. RecvRaises BlockingIOError), sendall = (\<lambda>sk. Sent)\<rparr>"

definition example_relay :: relay where
  "example_relay =
     \<lparr>last_activity = 0, client_buffer = replicate 4 (CHR 0x00),
      target_buffer = replicate 4 (CHR 0x00), events = []\<rparr>"

definition eof_pass :: "real \<Rightarrow> iteration" where
  "eof_pass t =
     \<lparr>select = Inr ([Client], [Client, Target], []), clock = t,
      recv_into = (\<lambda>sk. Received []), sendall = (\<lambda>sk. Sent)\<rparr>"

definition blocked_pass :: iteration where
  "blocked_pass =
     \<lparr>select = Inr ([Client], [Client, Target], []), clock = 1,
      recv_into = (\<lambda>sk. Received ''abc''),
      sendall = (\<lambda>sk. SendRaises 1 BlockingIOError)\<rparr>"

definition open_pass :: iteration where
  "open_pass =
     \<lparr>select = Inr ([Client], [Client, Target], []), clock = 2,
      recv_into = (\<lambda>sk. Received ''def''), sendall = (\<lambda>sk. Sent)\<rparr>"

definition chunk_routing_then_bad_byte :: bytes where
  "chunk_routing_then_bad_byte =
     ''X-Real-Host: example.org:2222'' @ [CHR 0x0D, CHR 0x0A] @ ''Cookie: caf'' @ [CHR 0xE9]
       @ [CHR 0x0D, CHR 0x0A, CHR 0x0D, CHR 0x0A]"

definition chunk_good_then_bad_byte :: bytes where
  "chunk_good_then_bad_byte =
     ''X-Real-Host: first.example:81'' @ [CHR 0x0D, CHR 0x0A]
       @ ''X-Real-Host: second.example:82'' @ [CHR 0xFF]
       @ [CHR 0x0D, CHR 0x0A, CHR 0x0D, CHR 0x0A]"

definition traffic_pass :: iteration where
  "traffic_pass =
     \<lparr>select = Inr ([Client], [Client, Target], []), clock = 5,
      recv_into = (\<lambda>sk. Received ''abc''), sendall = (\<lambda>sk. Sent)\<rparr>"

section \<open>Properties of load_config\<close>

text \<open>The \<open>while\<close> loop pads the list with the default up to the index.\<close>

lemma append_while_replicate:
  "append_while d i xs = xs @ replicate (nat (i + 1) - length xs) d"
proof (induction d i xs rule: append_while.induct)
  case (1 d index xs)
  show ?case
  proof (cases "int (length xs) \<le> index")
    case True
    then have "nat (index + 1) - length xs = Suc (nat (index + 1) - length (xs @ [d]))"
      by auto
    with True 1 show ?thesis
      by (subst append_while.simps) (simp add: replicate_app_Cons_same)
  next
    case False
    then have "nat (index + 1) - length xs = 0" by simp
    with False show ?thesis
      by (subst append_while.simps) simp
  qed
qed

lemma setitem_append_while:
  assumes "0 \<le> i"
  shows "setitem (append_while d i xs) i v =
         Inr ((xs @ replicate (nat (i + 1) - length xs) d)[nat i := v])"
proof -
  have "i < int (length (xs @ replicate (nat (i + 1) - length xs) d))"
    using assms by auto
  with assms show ?thesis
    unfolding append_while_replicate setitem_def Let_def by simp
qed

lemma override_entries:
  assumes "\<forall>(i, v) \<in> set ovs. 0 \<le> i"
  shows "\<exists>ys. override d xs ovs = Inr ys
           \<and> length ys = max (length xs) (Max (insert 0 ((\<lambda>(i, v). nat i + 1) ` set ovs)))
           \<and> (\<forall>j<length ys. ys ! j =
                 (case map_of (rev ovs) (int j) of
                    Some v \<Rightarrow> v
                  | None \<Rightarrow> if j < length xs then xs ! j else d))"
  using assms
proof (induction ovs arbitrary: xs)
  case Nil
  then show ?case by simp
next
  case (Cons ov rest)
  obtain i v where ov: "ov = (i, v)" by (cases ov)
  from Cons.prems ov have i0: "0 \<le> i" and rest0: "\<forall>(i, v) \<in> set rest. 0 \<le> i" by auto
  define xs' where "xs' = (xs @ replicate (nat (i + 1) - length xs) d)[nat i := v]"
  have len': "length xs' = max (length xs) (nat i + 1)"
    using i0 unfolding xs'_def by auto
  from Cons.IH[OF rest0, of xs'] obtain ys where
    ys: "override d xs' rest = Inr ys"
    and lys: "length ys = max (length xs') (Max (insert 0 ((\<lambda>(i, v). nat i + 1) ` set rest)))"
    and ent: "\<And>j. j < length ys \<Longrightarrow> ys ! j =
                 (case map_of (rev rest) (int j) of
                    Some v \<Rightarrow> v
                  | None \<Rightarrow> if j < length xs' then xs' ! j else d)"
    by blast
  have step: "override d xs (ov # rest) = Inr ys"
    using ys i0 by (simp add: ov setitem_append_while xs'_def)
  have "insert 0 ((\<lambda>(i, v). nat i + 1) ` set (ov # rest))
        = insert (nat i + 1) (insert 0 ((\<lambda>(i, v). nat i + 1) ` set rest))"
    by (auto simp: ov)
  then have "Max (insert 0 ((\<lambda>(i, v). nat i + 1) ` set (ov # rest)))
        = max (nat i + 1) (Max (insert 0 ((\<lambda>(i, v). nat i + 1) ` set rest)))"
    by (simp only: Max_insert[OF finite_insert[THEN iffD2, OF finite_imageI[OF finite_set]] insert_not_empty])
  then have l2: "length ys = max (length xs) (Max (insert 0 ((\<lambda>(i, v). nat i + 1) ` set (ov # rest))))"
    by (simp only: lys len' max.assoc)
  have e2: "ys ! j = (case map_of (rev (ov # rest)) (int j) of
                    Some v \<Rightarrow> v
                  | None \<Rightarrow> if j < length xs then xs ! j else d)" if j: "j < length ys" for j
  proof (cases "map_of (rev rest) (int j)")
    case (Some w)
    with ent[OF j] show ?thesis by (simp add: map_add_def)
  next
    case None
    with ent[OF j] have a: "ys ! j = (if j < length xs' then xs' ! j else d)" by simp
    show ?thesis
    proof (cases "int j = i")
      case True
      then have ji: "j = nat i" by simp
      have jl: "j < length xs'" using len' ji by simp
      then have "xs' ! j = v" unfolding xs'_def ji by simp
      with a jl have "ys ! j = v" by simp
      with None True show ?thesis
        by (simp add: ov map_add_def)
    next
      case False
      then have ne: "nat i \<noteq> j" using i0 by auto
      have "(if j < length xs' then xs' ! j else d) = (if j < length xs then xs ! j else d)"
      proof (cases "j < length xs")
        case True
        then show ?thesis using ne len' unfolding xs'_def by (simp add: nth_append)
      next
        case False
        have "xs' ! j = d" if "j < length xs'"
        proof -
          from that False len' i0 have "j - length xs < nat (i + 1) - length xs"
            by (auto simp: nat_add_distrib)
          with False ne show ?thesis unfolding xs'_def by (simp add: nth_append)
        qed
        with False show ?thesis by simp
      qed
      with a None False show ?thesis
        by (simp add: ov map_add_def)
    qed
  qed
  from step l2 e2 show ?case by blast
qed

lemma override_triples:
  assumes "\<forall>(i, a, p) \<in> set cmd. 0 \<le> i"
  shows "\<exists>ys. override d xs (map (\<lambda>(i, a, p). (i, mk a p)) cmd) = Inr ys
           \<and> length ys = max (length xs) (Max (insert 0 ((\<lambda>(i, a, p). nat i + 1) ` set cmd)))
           \<and> (\<forall>j<length ys. ys ! j =
                 (case map_of (rev cmd) (int j) of
                    Some (a, p) \<Rightarrow> mk a p
                  | None \<Rightarrow> if j < length xs then xs ! j else d))"
proof -
  let ?ovs = "map (\<lambda>(i, a, p). (i, mk a p)) cmd"
  have nonneg: "\<forall>(i, v) \<in> set ?ovs. 0 \<le> i"
    using assms by auto
  have img: "(\<lambda>(i, v). nat i + 1) ` set ?ovs = (\<lambda>(i, a, p). nat i + 1) ` set cmd"
    by (force simp: image_iff)
  have "?ovs = map (\<lambda>(k, v). (k, (\<lambda>(a, p). mk a p) v)) cmd"
    by (rule map_cong) auto
  then have "map_of (rev ?ovs) = map_option (\<lambda>(a, p). mk a p) \<circ> map_of (rev cmd)"
    by (simp only: rev_map map_of_map)
  then have look: "map_of (rev ?ovs) k = map_option (\<lambda>(a, p). mk a p) (map_of (rev cmd) k)" for k
    by simp
  from override_entries[OF nonneg, of d xs] obtain ys where
    a: "override d xs ?ovs = Inr ys"
    and b: "length ys = max (length xs) (Max (insert 0 ((\<lambda>(i, v). nat i + 1) ` set ?ovs)))"
    and c: "\<And>j. j < length ys \<Longrightarrow> ys ! j =
                 (case map_of (rev ?ovs) (int j) of
                    Some v \<Rightarrow> v
                  | None \<Rightarrow> if j < length xs then xs ! j else d)"
    by blast
  have c': "ys ! j = (case map_of (rev cmd) (int j) of
                    Some (a, p) \<Rightarrow> mk a p
                  | None \<Rightarrow> if j < length xs then xs ! j else d)" if "j < length ys" for j
    using c[OF that] unfolding look by (cases "map_of (rev cmd) (int j)") auto
  from a b c' show ?thesis unfolding img by blast
qed

text \<open>
  Claim C3. For a base list of bindings and of targets and command-line overrides with
  indices \<open>i \<ge> 0\<close>, \<open>load_config\<close> succeeds, and in each resolved list: the entry
  at an overridden index is the override's value (the last one given when an index is
  named more than once); the list is the base list, extended up to the highest
  overridden index; every entry that no override names is the base entry, or the fixed
  default where the base list was too short. The witness is the spec's example: a base
  list of length 1 with an override at index 2 gives a list of length 3 whose entry 1
  is the default.
\<close>

theorem load_config_overrides:
  assumes "\<forall>(i, a, p) \<in> set cmd_bind. 0 \<le> i"
      and "\<forall>(i, h, p) \<in> set cmd_listen. 0 \<le> i"
  shows "\<exists>bs ls.
           load_config fc cmd_bind cmd_listen = Inr (fc\<lparr>bindings := bs, listenings := ls\<rparr>)
         \<and> length bs = max (length (bindings fc))
                          (Max (insert 0 ((\<lambda>(i, a, p). nat i + 1) ` set cmd_bind)))
         \<and> (\<forall>j<length bs. bs ! j =
               (case map_of (rev cmd_bind) (int j) of
                  Some (a, p) \<Rightarrow> Binding a p
                | None \<Rightarrow> if j < length (bindings fc) then bindings fc ! j
                          else Binding DEFAULT_BIND_ADDR DEFAULT_BIND_PORT))
         \<and> length ls = max (length (listenings fc))
                          (Max (insert 0 ((\<lambda>(i, h, p). nat i + 1) ` set cmd_listen)))
         \<and> (\<forall>j<length ls. ls ! j =
               (case map_of (rev cmd_listen) (int j) of
                  Some (h, p) \<Rightarrow> Listening h p
                | None \<Rightarrow> if j < length (listenings fc) then listenings fc ! j
                          else Listening DEFAULT_LISTEN_HOST DEFAULT_LISTEN_PORT))"
proof -
  from override_triples[OF assms(1), of "Binding DEFAULT_BIND_ADDR DEFAULT_BIND_PORT"
      "bindings fc" Binding]
  obtain bs where
    b1: "override (Binding DEFAULT_BIND_ADDR DEFAULT_BIND_PORT) (bindings fc)
           (map (\<lambda>(i, a, p). (i, Binding a p)) cmd_bind) = Inr bs"
    and b2: "length bs = max (length (bindings fc))
                          (Max (insert 0 ((\<lambda>(i, a, p). nat i + 1) ` set cmd_bind)))"
    and b3: "\<forall>j<length bs. bs ! j =
               (case map_of (rev cmd_bind) (int j) of
                  Some (a, p) \<Rightarrow> Binding a p
                | None \<Rightarrow> if j < length (bindings fc) then bindings fc ! j
                          else Binding DEFAULT_BIND_ADDR DEFAULT_BIND_PORT)"
    by blast
  from override_triples[OF assms(2), of "Listening DEFAULT_LISTEN_HOST DEFAULT_LISTEN_PORT"
      "listenings fc" Listening]
  obtain ls where
    l1: "override (Listening DEFAULT_LISTEN_HOST DEFAULT_LISTEN_PORT) (listenings fc)
           (map (\<lambda>(i, h, p). (i, Listening h p)) cmd_listen) = Inr ls"
    and l2: "length ls = max (length (listenings fc))
                          (Max (insert 0 ((\<lambda>(i, h, p). nat i + 1) ` set cmd_listen)))"
    and l3: "\<forall>j<length ls. ls ! j =
               (case map_of (rev cmd_listen) (int j) of
                  Some (h, p) \<Rightarrow> Listening h p
                | None \<Rightarrow> if j < length (listenings fc) then listenings fc ! j
                          else Listening DEFAULT_LISTEN_HOST DEFAULT_LISTEN_PORT)"
    by blast
  have "load_config fc cmd_bind cmd_listen = Inr (fc\<lparr>bindings := bs, listenings := ls\<rparr>)"
    unfolding load_config_def by (simp only: b1 l1 sum.case)
  with b2 b3 l2 l3 show ?thesis by blast
qed

theorem load_config_overrides_witness:
  "(0::int) \<le> 2 \<and>
   (\<exists>bs. load_config (Config\<lparr>bindings := [Binding (str ''10.0.0.1'') 80]\<rparr>)
            [(2, str ''0.0.0.0'', 8080)] []
          = Inr (Config\<lparr>bindings := bs, listenings := []\<rparr>)
        \<and> length bs = 3
        \<and> bs ! 0 = Binding (str ''10.0.0.1'') 80
        \<and> bs ! 1 = Binding DEFAULT_BIND_ADDR DEFAULT_BIND_PORT
        \<and> bs ! 2 = Binding (str ''0.0.0.0'') 8080)"
proof -
  have h1: "\<forall>(i, a, p) \<in> set [(2::int, str ''0.0.0.0'', 8080::int)]. 0 \<le> i" by simp
  have h2: "\<forall>(i, h, p) \<in> set ([] :: (int \<times> pystr \<times> int) list). 0 \<le> i" by simp
  from load_config_overrides[OF h1 h2, of "Config\<lparr>bindings := [Binding (str ''10.0.0.1'') 80]\<rparr>"]
  obtain bs ls where
    a: "load_config (Config\<lparr>bindings := [Binding (str ''10.0.0.1'') 80]\<rparr>)
            [(2, str ''0.0.0.0'', 8080)] []
          = Inr (Config\<lparr>bindings := [Binding (str ''10.0.0.1'') 80]\<rparr>\<lparr>bindings := bs, listenings := ls\<rparr>)"
    and b: "length bs = 3"
    and c: "\<forall>j<length bs. bs ! j =
               (case map_of (rev [(2::int, str ''0.0.0.0'', 8080::int)]) (int j) of
                  Some (a, p) \<Rightarrow> Binding a p
                | None \<Rightarrow> if j < 1 then [Binding (str ''10.0.0.1'') 80] ! j
                          else Binding DEFAULT_BIND_ADDR DEFAULT_BIND_PORT)"
    and d: "length ls = 0"
    by (auto simp: Config_def)
  from c b have "bs ! 0 = Binding (str ''10.0.0.1'') 80"
    and "bs ! 1 = Binding DEFAULT_BIND_ADDR DEFAULT_BIND_PORT"
    and "bs ! 2 = Binding (str ''0.0.0.0'') 8080"
    by simp_all
  with a b d show ?thesis by (auto simp: Config_def)
qed

section \<open>Properties of parse_headers\<close>

text \<open>The loop over the header lines stops at the first line that starts with the
  routing header's name, whatever that line leads to.\<close>

lemma scan_headers_first:
  assumes "\<forall>x\<in>set pre. \<not> startswith (lower x) (str ''x-real-host:'')"
      and "startswith (lower h) (str ''x-real-host:'')"
  shows "scan_headers l (pre @ h # post) =
         (case routing_line l h of Inl e \<Rightarrow> Inl e | Inr r \<Rightarrow> Inr (Some r))"
  using assms by (induction pre) simp_all

lemma scan_headers_none:
  assumes "\<forall>x\<in>set ls. \<not> startswith (lower x) (str ''x-real-host:'')"
  shows "scan_headers l ls = Inr None"
  using assms by (induction ls) simp_all

lemma parse_headers_first_line:
  assumes "decode data = Inr t"
      and "split_all CRLF t = pre @ h # post"
      and "\<forall>x\<in>set pre. \<not> startswith (lower x) (str ''x-real-host:'')"
      and "startswith (lower h) (str ''x-real-host:'')"
  shows "parse_headers l data = (case routing_line l h of Inl e \<Rightarrow> None | Inr r \<Rightarrow> Some r)"
  using assms scan_headers_first[OF assms(3,4), of l post]
  by (simp add: parse_headers_def parse_headers_try_def split: sum.splits)

lemma parse_headers_no_line:
  assumes "decode data = Inr t"
      and "\<forall>x\<in>set (split_all CRLF t). \<not> startswith (lower x) (str ''x-real-host:'')"
  shows "parse_headers l data = None"
  using assms scan_headers_none[OF assms(2), of l]
  by (simp add: parse_headers_def parse_headers_try_def)

text \<open>\<open>split(sep, 1)\<close> cuts at the first occurrence of the separator.\<close>

lemma split1_at:
  assumes "sep \<noteq> []" and "hd sep \<notin> set a"
  shows "split1 sep (a @ sep @ b) = [a, b]"
  using assms
proof (induction a)
  case Nil
  then obtain c cs where "sep = c # cs" by (cases sep) auto
  then show ?case by simp
next
  case (Cons x a)
  then obtain c cs where sep: "sep = c # cs" by (cases sep) auto
  with Cons.prems have "x \<noteq> c" by auto
  with Cons sep show ?case by simp
qed

lemma header_name_no_colon:
  assumes "lower name = str ''x-real-host''"
  shows "58 \<notin> set name"
proof
  assume "58 \<in> set name"
  then have "lower_char 58 \<in> set (lower name)" unfolding lower_def by (metis image_eqI set_map)
  then show False unfolding assms by (simp add: lower_char_def)
qed

lemma header_line_startswith:
  assumes "lower name = str ''x-real-host''"
  shows "startswith (lower (name @ str '': '' @ v)) (str ''x-real-host:'')"
proof -
  have "lower (name @ str '': '' @ v) = str ''x-real-host'' @ str '': '' @ lower v"
    using assms by (simp add: lower_def lower_char_def)
  then show ?thesis by (simp add: startswith_def)
qed

lemma routing_line_value:
  assumes "lower name = str ''x-real-host''"
  shows "routing_line l (name @ str '': '' @ v) =
         (let host_port = strip v in
           if 58 \<in> set host_port then
             (case split1 (str '':'') host_port of
                [h1, p1] \<Rightarrow>
                  (case py_int p1 of
                     Inl e \<Rightarrow> Inl e
                   | Inr n \<Rightarrow> Inr (h1, n))
              | _ \<Rightarrow> Inl ValueError)
           else Inr (host_port, listening.port l))"
proof -
  have "split1 (str '': '') (name @ str '': '' @ v) = [name, v]"
    using header_name_no_colon[OF assms] by (intro split1_at) simp_all
  then show ?thesis by (simp add: routing_line_def getitem_def)
qed

lemma routing_line_host_port:
  assumes "lower name = str ''x-real-host''"
      and "strip v = h @ str '':'' @ p" and "58 \<notin> set h"
  shows "routing_line l (name @ str '': '' @ v) =
         (case py_int p of Inl e \<Rightarrow> Inl e | Inr n \<Rightarrow> Inr (h, n))"
proof -
  have "split1 (str '':'') (h @ str '':'' @ p) = [h, p]"
    using assms(3) by (intro split1_at) simp_all
  then show ?thesis
    unfolding routing_line_value[OF assms(1)] assms(2) by (simp add: Let_def)
qed

lemma routing_line_host:
  assumes "lower name = str ''x-real-host''" and "58 \<notin> set (strip v)"
  shows "routing_line l (name @ str '': '' @ v) = Inr (strip v, listening.port l)"
  unfolding routing_line_value[OF assms(1)] using assms(2) by (simp add: Let_def)

text \<open>The definitions that evaluate the string functions on a concrete input.\<close>

lemmas eval_defs =
  decode_def CRLF_def startswith_def lower_def lower_char_def strip_def isspace_def
  py_int_def int_space_def decimal_def decimal_zeros_def int_max_str_digits_def
  routing_line_def getitem_def

text \<open>The same chunk resolution, split by whether the chunk decodes.\<close>

lemma resolve_target_decoded:
  assumes "decode data = Inr t"
  shows "(split_all CRLF t = pre @ (name @ str '': '' @ v) # post
            \<and> (\<forall>x\<in>set pre. \<not> startswith (lower x) (str ''x-real-host:''))
            \<and> lower name = str ''x-real-host''
            \<and> strip v = h @ str '':'' @ p \<and> h \<noteq> [] \<and> 58 \<notin> set h \<and> py_int p = Inr n
          \<longrightarrow> resolve_target l data = (h, n))
       \<and> (split_all CRLF t = pre @ (name @ str '': '' @ v) # post
            \<and> (\<forall>x\<in>set pre. \<not> startswith (lower x) (str ''x-real-host:''))
            \<and> lower name = str ''x-real-host''
            \<and> strip v = h \<and> h \<noteq> [] \<and> 58 \<notin> set h
          \<longrightarrow> resolve_target l data = (h, listening.port l))
       \<and> ((\<forall>x\<in>set (split_all CRLF t). \<not> startswith (lower x) (str ''x-real-host:''))
          \<longrightarrow> resolve_target l data = (listening.host l, listening.port l))"
proof (intro conjI impI)
  assume a: "split_all CRLF t = pre @ (name @ str '': '' @ v) # post
            \<and> (\<forall>x\<in>set pre. \<not> startswith (lower x) (str ''x-real-host:''))
            \<and> lower name = str ''x-real-host''
            \<and> strip v = h @ str '':'' @ p \<and> h \<noteq> [] \<and> 58 \<notin> set h \<and> py_int p = Inr n"
  then have sp: "split_all CRLF t = pre @ (name @ str '': '' @ v) # post"
    and pre: "\<forall>x\<in>set pre. \<not> startswith (lower x) (str ''x-real-host:'')"
    and nm: "lower name = str ''x-real-host''"
    and sv: "strip v = h @ str '':'' @ p" and h0: "h \<noteq> []" and nh: "58 \<notin> set h"
    and pi: "py_int p = Inr n"
    by blast+
  have "routing_line l (name @ str '': '' @ v) = Inr (h, n)"
    using routing_line_host_port[OF nm sv nh, of l] pi by simp
  then have "parse_headers l data = Some (h, n)"
    using parse_headers_first_line[OF assms sp pre header_line_startswith[OF nm], of l]
    by simp
  with h0 show "resolve_target l data = (h, n)"
    by (simp add: resolve_target_def)
next
  assume a: "split_all CRLF t = pre @ (name @ str '': '' @ v) # post
            \<and> (\<forall>x\<in>set pre. \<not> startswith (lower x) (str ''x-real-host:''))
            \<and> lower name = str ''x-real-host''
            \<and> strip v = h \<and> h \<noteq> [] \<and> 58 \<notin> set h"
  then have sp: "split_all CRLF t = pre @ (name @ str '': '' @ v) # post"
    and pre: "\<forall>x\<in>set pre. \<not> startswith (lower x) (str ''x-real-host:'')"
    and nm: "lower name = str ''x-real-host''"
    and sv: "strip v = h" and h0: "h \<noteq> []" and nh: "58 \<notin> set h"
    by blast+
  have "routing_line l (name @ str '': '' @ v) = Inr (h, listening.port l)"
    using routing_line_host[OF nm, of v l] nh sv by simp
  then have "parse_headers l data = Some (h, listening.port l)"
    using parse_headers_first_line[OF assms sp pre header_line_startswith[OF nm], of l]
    by simp
  with h0 show "resolve_target l data = (h, listening.port l)"
    by (simp add: resolve_target_def)
next
  assume "\<forall>x\<in>set (split_all CRLF t). \<not> startswith (lower x) (str ''x-real-host:'')"
  then have "parse_headers l data = None"
    by (rule parse_headers_no_line[OF assms])
  then show "resolve_target l data = (listening.host l, listening.port l)"
    by (simp add: resolve_target_def)
qed

lemma resolve_target_undecodable:
  assumes "decode data = Inl e"
  shows "resolve_target l data = (listening.host l, listening.port l)"
  using assms by (simp add: resolve_target_def parse_headers_def parse_headers_try_def)

text \<open>
  Claim C2, amended. Target resolution on a first chunk. When the chunk is valid UTF-8
  and decodes to the lines \<open>pre\<close>, then possibly a routing line, then \<open>post\<close>: if the
  first line that starts with \<open>x-real-host:\<close> (in any case) is \<open>name: value\<close> and the
  stripped value is \<open>host:port\<close> with a non-empty host and a port that \<open>int\<close>
  accepts, the target is \<open>(host, port)\<close>; if the stripped value is a non-empty \<open>host\<close>
  with no colon, the target is the host with the port of the binding's listening; if
  no line starts with the header's name, the target is the listening's host and port.
  When the chunk is not valid UTF-8, the target is the listening's host and port,
  whatever lines the chunk holds.
\<close>

theorem resolve_target_routing_header:
  "(decode data = Inr t \<and> split_all CRLF t = pre @ (name @ str '': '' @ v) # post
            \<and> (\<forall>x\<in>set pre. \<not> startswith (lower x) (str ''x-real-host:''))
            \<and> lower name = str ''x-real-host''
            \<and> strip v = h @ str '':'' @ p \<and> h \<noteq> [] \<and> 58 \<notin> set h \<and> py_int p = Inr n
          \<longrightarrow> resolve_target l data = (h, n))
   \<and> (decode data = Inr t \<and> split_all CRLF t = pre @ (name @ str '': '' @ v) # post
            \<and> (\<forall>x\<in>set pre. \<not> startswith (lower x) (str ''x-real-host:''))
            \<and> lower name = str ''x-real-host''
            \<and> strip v = h \<and> h \<noteq> [] \<and> 58 \<notin> set h
          \<longrightarrow> resolve_target l data = (h, listening.port l))
   \<and> (decode data = Inr t \<and> (\<forall>x\<in>set (split_all CRLF t). \<not> startswith (lower x) (str ''x-real-host:''))
          \<longrightarrow> resolve_target l data = (listening.host l, listening.port l))
   \<and> (decode data = Inl e
          \<longrightarrow> resolve_target l data = (listening.host l, listening.port l))"
proof (intro conjI impI)
  assume a: "decode data = Inr t \<and> split_all CRLF t = pre @ (name @ str '': '' @ v) # post
            \<and> (\<forall>x\<in>set pre. \<not> startswith (lower x) (str ''x-real-host:''))
            \<and> lower name = str ''x-real-host''
            \<and> strip v = h @ str '':'' @ p \<and> h \<noteq> [] \<and> 58 \<notin> set h \<and> py_int p = Inr n"
  then have d: "decode data = Inr t" by blast
  from a resolve_target_decoded[OF d, of pre name v post h p n l]
  show "resolve_target l data = (h, n)" by blast
next
  assume a: "decode data = Inr t \<and> split_all CRLF t = pre @ (name @ str '': '' @ v) # post
            \<and> (\<forall>x\<in>set pre. \<not> startswith (lower x) (str ''x-real-host:''))
            \<and> lower name = str ''x-real-host''
            \<and> strip v = h \<and> h \<noteq> [] \<and> 58 \<notin> set h"
  then have d: "decode data = Inr t" by blast
  from a resolve_target_decoded[OF d, of pre name v post h p n l]
  show "resolve_target l data = (h, listening.port l)" by blast
next
  assume a: "decode data = Inr t \<and> (\<forall>x\<in>set (split_all CRLF t). \<not> startswith (lower x) (str ''x-real-host:''))"
  then have d: "decode data = Inr t" by blast
  from a resolve_target_decoded[OF d, of pre name v post h p n l]
  show "resolve_target l data = (listening.host l, listening.port l)" by blast
next
  assume "decode data = Inl e"
  then show "resolve_target l data = (listening.host l, listening.port l)"
    by (rule resolve_target_undecodable)
qed

theorem resolve_target_routing_header_witness:
  "resolve_target example_listening chunk_with_port = (str ''example.org'', 2222)
   \<and> resolve_target example_listening chunk_without_port = (str ''example.org'', 443)
   \<and> resolve_target example_listening chunk_no_header = (str ''10.0.0.5'', 443)
   \<and> decode chunk_not_utf8 = Inl UnicodeDecodeError
   \<and> resolve_target example_listening chunk_not_utf8 = (str ''10.0.0.5'', 443)"
proof -
  have d1: "decode chunk_with_port = Inr (str chunk_with_port)"
    by (simp add: decode_def chunk_with_port_def)
  have s1: "split_all CRLF (str chunk_with_port)
        = [str ''GET / HTTP/1.1'', str ''Host: a.b'']
          @ (str ''x-REAL-host'' @ str '': '' @ str ''example.org:2222'') # [[], []]"
    by (simp add: chunk_with_port_def CRLF_def)
  have p1: "\<forall>x\<in>set [str ''GET / HTTP/1.1'', str ''Host: a.b''].
              \<not> startswith (lower x) (str ''x-real-host:'')"
    by (simp add: startswith_def lower_def lower_char_def)
  have n1: "lower (str ''x-REAL-host'') = str ''x-real-host''"
    by (simp add: lower_def lower_char_def)
  have v1: "strip (str ''example.org:2222'') = str ''example.org'' @ str '':'' @ str ''2222''"
    by (simp add: strip_def isspace_def)
  have i1: "py_int (str ''2222'') = Inr 2222"
    by (simp add: eval_defs)
  have r1: "resolve_target example_listening chunk_with_port = (str ''example.org'', 2222)"
    using resolve_target_routing_header[where data = chunk_with_port
        and t = "str chunk_with_port"
        and pre = "[str ''GET / HTTP/1.1'', str ''Host: a.b'']"
        and name = "str ''x-REAL-host''" and v = "str ''example.org:2222''"
        and post = "[[], []]" and h = "str ''example.org''" and p = "str ''2222''"
        and n = 2222 and l = example_listening]
      d1 s1 p1 n1 v1 i1 by simp
  have d2: "decode chunk_without_port = Inr (str chunk_without_port)"
    by (simp add: decode_def chunk_without_port_def)
  have s2: "split_all CRLF (str chunk_without_port)
        = [str ''GET / HTTP/1.1'']
          @ (str ''X-Real-Host'' @ str '': '' @ str ''example.org'') # [[], []]"
    by (simp add: chunk_without_port_def CRLF_def)
  have p2: "\<forall>x\<in>set [str ''GET / HTTP/1.1'']. \<not> startswith (lower x) (str ''x-real-host:'')"
    by (simp add: startswith_def lower_def lower_char_def)
  have n2: "lower (str ''X-Real-Host'') = str ''x-real-host''"
    by (simp add: lower_def lower_char_def)
  have v2: "strip (str ''example.org'') = str ''example.org''"
    by (simp add: strip_def isspace_def)
  have r2: "resolve_target example_listening chunk_without_port = (str ''example.org'', 443)"
    using resolve_target_routing_header[where data = chunk_without_port
        and t = "str chunk_without_port" and pre = "[str ''GET / HTTP/1.1'']"
        and name = "str ''X-Real-Host''" and v = "str ''example.org''"
        and post = "[[], []]" and h = "str ''example.org''" and l = example_listening]
      d2 s2 p2 n2 v2 by (simp add: example_listening_def)
  have d3: "decode chunk_no_header = Inr (str chunk_no_header)"
    by (simp add: decode_def chunk_no_header_def)
  have s3: "\<forall>x\<in>set (split_all CRLF (str chunk_no_header)).
              \<not> startswith (lower x) (str ''x-real-host:'')"
    by (simp add: chunk_no_header_def CRLF_def startswith_def lower_def lower_char_def)
  have r3: "resolve_target example_listening chunk_no_header = (str ''10.0.0.5'', 443)"
    using resolve_target_routing_header[where data = chunk_no_header
        and t = "str chunk_no_header" and l = example_listening] d3 s3
    by (simp add: example_listening_def)
  have d4: "decode chunk_not_utf8 = Inl UnicodeDecodeError"
    by (simp add: chunk_not_utf8_def decode_def cont_def)
  have r4: "resolve_target example_listening chunk_not_utf8 = (str ''10.0.0.5'', 443)"
    using resolve_target_routing_header[where data = chunk_not_utf8
        and e = UnicodeDecodeError and l = example_listening] d4
    by (simp add: example_listening_def)
  from r1 r2 r3 d4 r4 show ?thesis by simp
qed

text \<open>
  Claim C2 as written fails on this chunk: its first line is the routing header with
  the value \<open>example.org:2222\<close>, and an unrelated later line holds the byte \<open>0xE9\<close>,
  which is not UTF-8. \<open>data.decode()\<close> raises, and the target is the listening.
\<close>

theorem routing_header_lost_to_bad_byte:
  "chunk_routing_then_bad_byte =
     ''X-Real-Host: example.org:2222'' @ [CHR 0x0D, CHR 0x0A] @ ''Cookie: caf'' @ [CHR 0xE9]
       @ [CHR 0x0D, CHR 0x0A, CHR 0x0D, CHR 0x0A]
   \<and> resolve_target example_listening chunk_routing_then_bad_byte = (str ''10.0.0.5'', 443)
   \<and> resolve_target example_listening chunk_routing_then_bad_byte
       \<noteq> (str ''example.org'', 2222)"
  by (simp add: chunk_routing_then_bad_byte_def resolve_target_def parse_headers_def
      parse_headers_try_def decode_def cont_def example_listening_def)

text \<open>
  Claim C10, amended. When the chunk is valid UTF-8 and several of its lines start with
  the routing header's name, the first of them in CRLF order decides alone:
  \<open>parse_headers\<close> returns what that line gives, and nothing (no directive) if the line
  raises, as with a missing \<open>': '\<close> or a port that is not a number. The lines after it
  are not consulted: any valid UTF-8 chunk with the same lines up to and including that
  one gives the same result. When the chunk is not valid UTF-8, in whichever line,
  \<open>parse_headers\<close> returns no directive.
\<close>

theorem first_routing_line_decides:
  "(decode data = Inr t \<and> split_all CRLF t = pre @ h # post
      \<and> (\<forall>x\<in>set pre. \<not> startswith (lower x) (str ''x-real-host:''))
      \<and> startswith (lower h) (str ''x-real-host:'')
    \<longrightarrow> parse_headers l data = (case routing_line l h of Inl e \<Rightarrow> None | Inr r \<Rightarrow> Some r)
        \<and> (decode data' = Inr t' \<and> split_all CRLF t' = pre @ h # post'
             \<longrightarrow> parse_headers l data' = parse_headers l data))
   \<and> (decode data = Inl e' \<longrightarrow> parse_headers l data = None)"
proof (intro conjI impI)
  assume a: "decode data = Inr t \<and> split_all CRLF t = pre @ h # post
      \<and> (\<forall>x\<in>set pre. \<not> startswith (lower x) (str ''x-real-host:''))
      \<and> startswith (lower h) (str ''x-real-host:'')"
  then have d: "decode data = Inr t" and s: "split_all CRLF t = pre @ h # post"
    and p: "\<forall>x\<in>set pre. \<not> startswith (lower x) (str ''x-real-host:'')"
    and m: "startswith (lower h) (str ''x-real-host:'')"
    by blast+
  show r: "parse_headers l data = (case routing_line l h of Inl e \<Rightarrow> None | Inr r \<Rightarrow> Some r)"
    by (rule parse_headers_first_line[OF d s p m])
  assume "decode data' = Inr t' \<and> split_all CRLF t' = pre @ h # post'"
  then have "parse_headers l data'
             = (case routing_line l h of Inl e \<Rightarrow> None | Inr r \<Rightarrow> Some r)"
    using parse_headers_first_line[OF _ _ p m, of data' t' post' l] by blast
  with r show "parse_headers l data' = parse_headers l data" by simp
next
  assume "decode data = Inl e'"
  then show "parse_headers l data = None"
    by (simp add: parse_headers_def parse_headers_try_def)
qed

theorem first_routing_line_decides_witness:
  "routing_line example_listening (str ''X-Real-Host: first.example:http'') = Inl ValueError
   \<and> parse_headers example_listening chunk_bad_then_good = None
   \<and> routing_line example_listening (str ''X-Real-Host: first.example:81'')
       = Inr (str ''first.example'', 81)
   \<and> parse_headers example_listening chunk_good_then_good = Some (str ''first.example'', 81)
   \<and> decode chunk_not_utf8 = Inl UnicodeDecodeError
   \<and> parse_headers example_listening chunk_not_utf8 = None"
proof -
  have d1: "decode chunk_bad_then_good = Inr (str chunk_bad_then_good)"
    by (simp add: decode_def chunk_bad_then_good_def)
  have s1: "split_all CRLF (str chunk_bad_then_good)
        = [] @ str ''X-Real-Host: first.example:http''
             # [str ''X-Real-Host: second.example:82'', [], []]"
    by (simp add: chunk_bad_then_good_def CRLF_def)
  have m1: "startswith (lower (str ''X-Real-Host: first.example:http'')) (str ''x-real-host:'')"
    by (simp add: startswith_def lower_def lower_char_def)
  have l1: "routing_line example_listening (str ''X-Real-Host: first.example:http'')
        = Inl ValueError"
    by (simp add: eval_defs)
  have d2: "decode chunk_good_then_good = Inr (str chunk_good_then_good)"
    by (simp add: decode_def chunk_good_then_good_def)
  have s2: "split_all CRLF (str chunk_good_then_good)
        = [] @ str ''X-Real-Host: first.example:81''
             # [str ''X-Real-Host: second.example:82'', [], []]"
    by (simp add: chunk_good_then_good_def CRLF_def)
  have m2: "startswith (lower (str ''X-Real-Host: first.example:81'')) (str ''x-real-host:'')"
    by (simp add: startswith_def lower_def lower_char_def)
  have l2: "routing_line example_listening (str ''X-Real-Host: first.example:81'')
        = Inr (str ''first.example'', 81)"
    by (simp add: eval_defs)
  have e: "\<forall>x\<in>set ([] :: pystr list). \<not> startswith (lower x) (str ''x-real-host:'')"
    by simp
  have d3: "decode chunk_not_utf8 = Inl UnicodeDecodeError"
    by (simp add: chunk_not_utf8_def decode_def cont_def)
  have r1: "parse_headers example_listening chunk_bad_then_good = None"
    using first_routing_line_decides[where data = chunk_bad_then_good
        and t = "str chunk_bad_then_good" and pre = "[]"
        and h = "str ''X-Real-Host: first.example:http''"
        and post = "[str ''X-Real-Host: second.example:82'', [], []]"
        and l = example_listening]
      d1 s1 e m1 l1 by simp
  have r2: "parse_headers example_listening chunk_good_then_good
            = Some (str ''first.example'', 81)"
    using first_routing_line_decides[where data = chunk_good_then_good
        and t = "str chunk_good_then_good" and pre = "[]"
        and h = "str ''X-Real-Host: first.example:81''"
        and post = "[str ''X-Real-Host: second.example:82'', [], []]"
        and l = example_listening]
      d2 s2 e m2 l2 by simp
  have r3: "parse_headers example_listening chunk_not_utf8 = None"
    using first_routing_line_decides[where data = chunk_not_utf8
        and e' = UnicodeDecodeError and l = example_listening] d3 by simp
  from l1 r1 l2 r2 d3 r3 show ?thesis by simp
qed

text \<open>
  Claim C10 as written fails on this chunk: its first routing line is well-formed and
  gives \<open>(first.example, 81)\<close>, but a later line holds the byte \<open>0xFF\<close>, which is not
  UTF-8. \<open>data.decode()\<close> raises before any line is looked at, and \<open>parse_headers\<close>
  returns no directive.
\<close>

theorem first_routing_line_lost_to_bad_byte:
  "chunk_good_then_bad_byte =
     ''X-Real-Host: first.example:81'' @ [CHR 0x0D, CHR 0x0A]
       @ ''X-Real-Host: second.example:82'' @ [CHR 0xFF]
       @ [CHR 0x0D, CHR 0x0A, CHR 0x0D, CHR 0x0A]
   \<and> routing_line example_listening (str ''X-Real-Host: first.example:81'')
       = Inr (str ''first.example'', 81)
   \<and> parse_headers example_listening chunk_good_then_bad_byte = None"
  by (simp add: chunk_good_then_bad_byte_def parse_headers_def parse_headers_try_def
      decode_def cont_def eval_defs)

section \<open>Properties of run\<close>

text \<open>\<open>run\<close> leaves through \<open>finally\<close>, or it is still in the relay loop.\<close>

lemma run_cases:
  "(\<exists>evs raised has_target k. run cfg l en = finish en evs raised has_target k)
   \<or> \<not> finished (run cfg l en)"
proof (cases "first_recv en")
  case (RecvRaises e)
  then show ?thesis by (simp add: run_def) blast
next
  case (Received avail)
  show ?thesis
  proof (cases "take (buffer cfg) avail = []")
    case True
    with Received show ?thesis by (simp add: run_def) blast
  next
    case False
    obtain h p where tgt: "resolve_target l (take (buffer cfg) avail) = (h, p)"
      by (cases "resolve_target l (take (buffer cfg) avail)")
    obtain evs2 ht r where ct: "connect_target en h p = (evs2, ht, r)"
      by (cases "connect_target en h p")
    show ?thesis
    proof (cases r)
      case (Some e)
      with Received False tgt ct show ?thesis by (simp add: run_def) blast
    next
      case None
      note dialed = None
      show ?thesis
      proof (cases "encode (response cfg)")
        case (Inl e)
        with Received False tgt ct dialed show ?thesis by (simp add: run_def) blast
      next
        case (Inr resp)
        show ?thesis
        proof (cases "client_send en")
          case (Some e)
          with Received False tgt ct dialed Inr show ?thesis by (simp add: run_def) blast
        next
          case None
          obtain evs3 res where tn: "tunnel cfg en = (evs3, res)"
            by (cases "tunnel cfg en")
          show ?thesis
          proof (cases res)
            case None
            with Received False tgt ct dialed Inr \<open>client_send en = None\<close> tn
            show ?thesis by (simp add: run_def)
          next
            case (Some error)
            with Received False tgt ct dialed Inr \<open>client_send en = None\<close> tn
            show ?thesis by (simp add: run_def) blast
          qed
        qed
      qed
    qed
  qed
qed

lemma run_ends_with_close:
  assumes "finished (run cfg l en)"
  shows "\<exists>evs k has_target. trace (run cfg l en) = evs @ close en k has_target"
proof -
  from run_cases[of cfg l en] assms obtain evs raised ht k
    where "run cfg l en = finish en evs raised ht k" by blast
  then have "trace (run cfg l en)
             = (evs @ (case raised of None \<Rightarrow> [] | Some e \<Rightarrow> [LogError e])) @ close en k ht"
    by (simp add: finish_def)
  then show ?thesis by blast
qed

text \<open>\<open>run\<close> on each of its paths up to the relay loop.\<close>

lemma run_recv_raises:
  assumes "first_recv en = RecvRaises e"
  shows "run cfg l en = finish en [Recv Client (RecvRaises e)] (Some e) False 0"
  using assms by (simp add: run_def)

lemma run_empty:
  assumes "first_recv en = Received avail" and "take (buffer cfg) avail = []"
  shows "run cfg l en = finish en [Recv Client (Received [])] None False 0"
  using assms(1) by (simp add: run_def Let_def assms(2) del: take_eq_Nil take_eq_Nil2)

lemma run_socket_fails:
  assumes "first_recv en = Received avail" and "take (buffer cfg) avail \<noteq> []"
      and "socket_create en = Some e"
  shows "run cfg l en =
         finish en [Recv Client (Received (take (buffer cfg) avail)), SocketCreate (Some e)]
           (Some e) False 0"
  using assms by (simp add: run_def connect_target_def split: prod.splits)

lemma run_connect_fails:
  assumes "first_recv en = Received avail" and "take (buffer cfg) avail \<noteq> []"
      and "resolve_target l (take (buffer cfg) avail) = (h, p)"
      and "socket_create en = None" and "connect en h p = Some e"
  shows "run cfg l en =
         finish en [Recv Client (Received (take (buffer cfg) avail)), SocketCreate None,
                    Connect h p (Some e)]
           (Some e) True 0"
  using assms by (simp add: run_def connect_target_def)

lemma run_dialed:
  assumes "first_recv en = Received avail" and "take (buffer cfg) avail \<noteq> []"
      and "resolve_target l (take (buffer cfg) avail) = (h, p)"
      and "socket_create en = None" and "connect en h p = None"
  shows "run cfg l en =
         (let evs = [Recv Client (Received (take (buffer cfg) avail)), SocketCreate None,
                     Connect h p None, LogConnected h p]
          in case encode (response cfg) of
               Inl e \<Rightarrow> finish en evs (Some e) True 0
             | Inr resp \<Rightarrow>
                 (case client_send en of
                    Some e \<Rightarrow> finish en (evs @ [Handshake resp (Some e)]) (Some e) True 0
                  | None \<Rightarrow>
                      (case tunnel cfg en of
                         (evs3, None) \<Rightarrow>
                           \<lparr>trace = evs @ [Handshake resp None] @ evs3, finished = False\<rparr>
                       | (evs3, Some error) \<Rightarrow>
                           finish en (evs @ [Handshake resp None] @ evs3) None True
                             (if error then 1 else 0))))"
  using assms
  by (simp add: run_def connect_target_def Let_def
      split: sum.splits option.splits prod.splits)

lemma run_finishes:
  assumes "snd (tunnel cfg en) \<noteq> None"
  shows "finished (run cfg l en)"
proof (cases "first_recv en")
  case (RecvRaises e)
  then show ?thesis by (simp add: run_recv_raises finish_def)
next
  case (Received avail)
  show ?thesis
  proof (cases "take (buffer cfg) avail = []")
    case True
    with Received show ?thesis by (simp add: run_empty finish_def)
  next
    case False
    obtain h p where tgt: "resolve_target l (take (buffer cfg) avail) = (h, p)"
      by (cases "resolve_target l (take (buffer cfg) avail)")
    show ?thesis
    proof (cases "socket_create en")
      case (Some e)
      with Received False show ?thesis by (simp add: run_socket_fails finish_def)
    next
      case None
      show ?thesis
      proof (cases "connect en h p")
        case (Some e)
        with Received False tgt None show ?thesis by (simp add: run_connect_fails finish_def)
      next
        case cn: None
        from assms obtain evs3 error where "tunnel cfg en = (evs3, Some error)"
          by (cases "tunnel cfg en") auto
        then show ?thesis
          unfolding run_dialed[OF Received False tgt None cn]
          by (simp add: finish_def Let_def split: sum.splits option.splits)
      qed
    qed
  qed
qed

text \<open>
  What \<open>run\<close> has done when it ends: some events and then one call of \<open>close()\<close>.
  The call is the second one exactly when the relay loop was reached and left with
  \<open>error = True\<close>, and \<open>self.target\<close> is a socket exactly when \<open>socket.socket\<close> returned
  one.
\<close>

lemma finish_trace:
  assumes "run cfg l en = finish en evs raised ht k"
      and "ht = (SocketCreate None \<in> set evs)"
      and "k = (if (\<exists>resp. Handshake resp None \<in> set evs) \<and> snd (tunnel cfg en) = Some True
                then 1 else 0)"
  shows "\<exists>evs'. trace (run cfg l en) =
           evs' @ close en
                    (if (\<exists>resp. Handshake resp None \<in> set evs')
                        \<and> snd (tunnel cfg en) = Some True then 1 else 0)
                    (SocketCreate None \<in> set evs')"
proof -
  let ?log = "case raised of None \<Rightarrow> [] | Some e \<Rightarrow> [LogError e]"
  have m1: "(SocketCreate None \<in> set (evs @ ?log)) = (SocketCreate None \<in> set evs)"
    by (cases raised) simp_all
  have m2: "(\<exists>resp. Handshake resp None \<in> set (evs @ ?log))
            = (\<exists>resp. Handshake resp None \<in> set evs)"
    by (cases raised) simp_all
  have "trace (run cfg l en) = (evs @ ?log) @ close en k ht"
    by (simp add: assms(1) finish_def)
  then have "trace (run cfg l en) =
           (evs @ ?log) @ close en
                    (if (\<exists>resp. Handshake resp None \<in> set (evs @ ?log))
                        \<and> snd (tunnel cfg en) = Some True then 1 else 0)
                    (SocketCreate None \<in> set (evs @ ?log))"
    unfolding m1 m2 assms(2)[symmetric] assms(3)[symmetric] .
  then show ?thesis by (rule exI[of _ "evs @ ?log"])
qed

lemma run_close_attempts:
  assumes "finished (run cfg l en)"
  shows "\<exists>evs. trace (run cfg l en) =
           evs @ close en
                   (if (\<exists>resp. Handshake resp None \<in> set evs)
                       \<and> snd (tunnel cfg en) = Some True then 1 else 0)
                   (SocketCreate None \<in> set evs)"
proof (cases "first_recv en")
  case (RecvRaises e)
  show ?thesis
    by (rule finish_trace[OF run_recv_raises[OF RecvRaises]]) simp_all
next
  case (Received avail)
  show ?thesis
  proof (cases "take (buffer cfg) avail = []")
    case True
    show ?thesis
      by (rule finish_trace[OF run_empty[OF Received True]]) simp_all
  next
    case False
    obtain h p where tgt: "resolve_target l (take (buffer cfg) avail) = (h, p)"
      by (cases "resolve_target l (take (buffer cfg) avail)")
    show ?thesis
    proof (cases "socket_create en")
      case (Some e)
      show ?thesis
        by (rule finish_trace[OF run_socket_fails[OF Received False Some]]) simp_all
    next
      case None
      show ?thesis
      proof (cases "connect en h p")
        case (Some e)
        show ?thesis
          by (rule finish_trace[OF run_connect_fails[OF Received False tgt None Some]])
             simp_all
      next
        case cn: None
        note rd = run_dialed[OF Received False tgt None cn]
        show ?thesis
        proof (cases "encode (response cfg)")
          case (Inl e)
          have "run cfg l en =
                finish en [Recv Client (Received (take (buffer cfg) avail)), SocketCreate None,
                           Connect h p None, LogConnected h p] (Some e) True 0"
            unfolding rd by (simp add: Inl)
          then show ?thesis by (rule finish_trace) simp_all
        next
          case (Inr resp)
          show ?thesis
          proof (cases "client_send en")
            case (Some e)
            have "run cfg l en =
                  finish en ([Recv Client (Received (take (buffer cfg) avail)),
                              SocketCreate None, Connect h p None, LogConnected h p]
                             @ [Handshake resp (Some e)]) (Some e) True 0"
              unfolding rd by (simp add: Inr Some)
            then show ?thesis by (rule finish_trace) simp_all
          next
            case cs: None
            obtain evs3 out where tn: "tunnel cfg en = (evs3, out)"
              by (cases "tunnel cfg en")
            show ?thesis
            proof (cases out)
              case None
              have "run cfg l en =
                    \<lparr>trace = [Recv Client (Received (take (buffer cfg) avail)),
                              SocketCreate None, Connect h p None, LogConnected h p]
                             @ [Handshake resp None] @ evs3, finished = False\<rparr>"
                unfolding rd by (simp add: Inr cs tn None)
              with assms show ?thesis by simp
            next
              case (Some error)
              have "run cfg l en =
                    finish en ([Recv Client (Received (take (buffer cfg) avail)),
                                SocketCreate None, Connect h p None, LogConnected h p]
                               @ [Handshake resp None] @ evs3) None True
                      (if error then 1 else 0)"
                unfolding rd by (simp add: Inr cs tn Some)
              then show ?thesis
                by (rule finish_trace) (auto simp: tn Some)
            qed
          qed
        qed
      qed
    qed
  qed
qed

text \<open>
  Claim C6. On every path on which \<open>run\<close> ends, the last two things it does are an
  attempt to close the client handle and an attempt to close the target handle, in the
  \<open>k\<close>-th call of \<open>close()\<close>: the second call when the relay loop was reached and left
  with an error (the loop has then called \<open>close()\<close> itself), the first call otherwise.
  The attempt on the target follows whatever the attempt on the client raised. It is
  an attempt on the socket when \<open>socket.socket\<close> returned one, so that \<open>self.target\<close> was
  assigned, and otherwise it is made on \<open>None\<close> and fails with \<open>AttributeError\<close>.
  Nothing either attempt raises leaves \<open>close()\<close>. \<open>run\<close> ends whenever the relay loop,
  if it is reached, is left.
\<close>

theorem run_closes_both_handles:
  "(snd (tunnel cfg en) \<noteq> None \<longrightarrow> finished (run cfg l en))
   \<and> (finished (run cfg l en) \<longrightarrow>
        (\<exists>evs k. trace (run cfg l en) =
           evs @ [Close Client (close_raises en k Client),
                  Close Target (if SocketCreate None \<in> set evs then close_raises en k Target
                                else Some AttributeError)]
         \<and> k = (if (\<exists>resp. Handshake resp None \<in> set evs)
                    \<and> snd (tunnel cfg en) = Some True then 1 else 0)))"
proof (intro conjI impI)
  assume "snd (tunnel cfg en) \<noteq> None"
  then show "finished (run cfg l en)" by (rule run_finishes)
next
  assume "finished (run cfg l en)"
  from run_close_attempts[OF this] obtain evs where
    "trace (run cfg l en) =
       evs @ close en
               (if (\<exists>resp. Handshake resp None \<in> set evs)
                   \<and> snd (tunnel cfg en) = Some True then 1 else 0)
               (SocketCreate None \<in> set evs)"
    by blast
  then have "trace (run cfg l en) =
           evs @ [Close Client (close_raises en
                    (if (\<exists>resp. Handshake resp None \<in> set evs)
                        \<and> snd (tunnel cfg en) = Some True then 1 else 0) Client),
                  Close Target (if SocketCreate None \<in> set evs then close_raises en
                    (if (\<exists>resp. Handshake resp None \<in> set evs)
                        \<and> snd (tunnel cfg en) = Some True then 1 else 0) Target
                                else Some AttributeError)]"
    by (simp only: close_def)
  then show "\<exists>evs k. trace (run cfg l en) =
           evs @ [Close Client (close_raises en k Client),
                  Close Target (if SocketCreate None \<in> set evs then close_raises en k Target
                                else Some AttributeError)]
         \<and> k = (if (\<exists>resp. Handshake resp None \<in> set evs)
                    \<and> snd (tunnel cfg en) = Some True then 1 else 0)"
    by blast
qed

theorem run_closes_both_handles_witness:
  "snd (tunnel example_config
          (example_env\<lparr>script := [select_raises_pass],
                        close_raises := (\<lambda>k sk. if 0 < k \<and> sk = Client then Some OSError
                                                else None)\<rparr>)) \<noteq> None
   \<and> finished (run example_config example_listening
          (example_env\<lparr>script := [select_raises_pass],
                        close_raises := (\<lambda>k sk. if 0 < k \<and> sk = Client then Some OSError
                                                else None)\<rparr>))
   \<and> (\<exists>resp. trace (run example_config example_listening
          (example_env\<lparr>script := [select_raises_pass],
                        close_raises := (\<lambda>k sk. if 0 < k \<and> sk = Client then Some OSError
                                                else None)\<rparr>))
        = [Recv Client (Received chunk_with_port), SocketCreate None,
           Connect (str ''example.org'') 2222 None, LogConnected (str ''example.org'') 2222,
           Handshake resp None, LogTunnelError OSError, Close Client None, Close Target None]
          @ [Close Client (Some OSError), Close Target None])
   \<and> finished (run example_config example_listening
          (example_env\<lparr>first_recv := RecvRaises OSError,
                        close_raises := (\<lambda>k sk. Some OSError)\<rparr>))
   \<and> trace (run example_config example_listening
          (example_env\<lparr>first_recv := RecvRaises OSError,
                        close_raises := (\<lambda>k sk. Some OSError)\<rparr>))
        = [Recv Client (RecvRaises OSError), LogError OSError]
          @ [Close Client (Some OSError), Close Target (Some AttributeError)]"
proof -
  let ?en = "example_env\<lparr>script := [select_raises_pass],
                          close_raises := (\<lambda>k sk. if 0 < k \<and> sk = Client then Some OSError
                                                  else None)\<rparr>"
  let ?en' = "example_env\<lparr>first_recv := RecvRaises OSError,
                           close_raises := (\<lambda>k sk. Some OSError)\<rparr>"
  have tk: "take (buffer example_config) chunk_with_port = chunk_with_port"
    by (simp add: example_config_def chunk_with_port_def)
  have rt: "resolve_target example_listening chunk_with_port = (str ''example.org'', 2222)"
    by (simp add: resolve_target_def parse_headers_def parse_headers_try_def
        chunk_with_port_def eval_defs)
  have ne: "chunk_with_port \<noteq> []" by (simp add: chunk_with_port_def)
  have a1: "first_recv ?en = Received chunk_with_port" by (simp add: example_env_def)
  have a2: "take (buffer example_config) chunk_with_port \<noteq> []" unfolding tk by (rule ne)
  have a3: "resolve_target example_listening (take (buffer example_config) chunk_with_port)
            = (str ''example.org'', 2222)" unfolding tk by (rule rt)
  have a4: "socket_create ?en = None" by (simp add: example_env_def)
  have a5: "connect ?en (str ''example.org'') 2222 = None" by (simp add: example_env_def)
  obtain resp where a6: "encode (response example_config) = Inr resp"
    by (simp add: encode_def example_config_def Config_def RESPONSE_def CRLF_def
        utf8_encode_char_def)
  have a7: "client_send ?en = None" by (simp add: example_env_def)
  have tn: "tunnel example_config ?en
            = ([LogTunnelError OSError, Close Client None, Close Target None], Some True)"
    by (simp add: tunnel_def select_raises_pass_def emit_def close_def)
  have t: "snd (tunnel example_config ?en) \<noteq> None" unfolding tn by simp
  have tr: "trace (run example_config example_listening ?en)
        = [Recv Client (Received chunk_with_port), SocketCreate None,
           Connect (str ''example.org'') 2222 None, LogConnected (str ''example.org'') 2222,
           Handshake resp None, LogTunnelError OSError, Close Client None, Close Target None]
          @ [Close Client (Some OSError), Close Target None]"
    unfolding run_dialed[OF a1 a2 a3 a4 a5]
    by (simp add: a6 a7 tn tk Let_def finish_def close_def)
  have f': "finished (run example_config example_listening ?en')"
    by (simp add: run_def example_env_def finish_def)
  from run_closes_both_handles[of example_config ?en example_listening] t
  have f: "finished (run example_config example_listening ?en)"
    by blast
  from run_closes_both_handles[of example_config ?en' example_listening] f'
  obtain evs k where eq: "trace (run example_config example_listening ?en') =
           evs @ [Close Client (close_raises ?en' k Client),
                  Close Target (if SocketCreate None \<in> set evs then close_raises ?en' k Target
                                else Some AttributeError)]"
    by blast
  have tr0: "trace (run example_config example_listening ?en')
        = [Recv Client (RecvRaises OSError), LogError OSError]
          @ [Close Client (Some OSError), Close Target (Some AttributeError)]"
    by (simp add: run_def example_env_def finish_def close_def)
  from eq tr0 have "evs = [Recv Client (RecvRaises OSError), LogError OSError]"
    by simp
  with eq have tr': "trace (run example_config example_listening ?en')
        = [Recv Client (RecvRaises OSError), LogError OSError]
          @ [Close Client (Some OSError), Close Target (Some AttributeError)]"
    by simp
  from t f tr f' tr' show ?thesis by blast
qed

text \<open>
  Claim C8. When the first read from the client returns zero bytes, \<open>run\<close> ends with
  exactly these events: the read and the two close attempts. No socket is created, no
  target is dialed, no response is sent to the client and no error is logged.
\<close>

theorem run_empty_first_read:
  assumes "first_recv en = Received []"
  shows "run cfg l en =
         \<lparr>trace = [Recv Client (Received []),
                   Close Client (close_raises en 0 Client),
                   Close Target (Some AttributeError)],
          finished = True\<rparr>"
  using run_empty[OF assms, of cfg l] by (simp add: finish_def close_def)

theorem run_empty_first_read_witness:
  "first_recv (example_env\<lparr>first_recv := Received []\<rparr>) = Received []
   \<and> run example_config example_listening (example_env\<lparr>first_recv := Received []\<rparr>) =
       \<lparr>trace = [Recv Client (Received []), Close Client None,
                 Close Target (Some AttributeError)],
        finished = True\<rparr>"
proof -
  have h: "first_recv (example_env\<lparr>first_recv := Received []\<rparr>) = Received []" by simp
  from run_empty_first_read[OF h, of example_config example_listening] h
  show ?thesis by (simp add: example_env_def)
qed

text \<open>
  Claim C9. The response is sent to the client only after the dial of the resolved
  target has succeeded. When the \<open>connect\<close> to the resolved target raises, \<open>run\<close>
  ends with exactly these events: the read, the creation of the socket, the one
  \<open>connect\<close>, the log of the error and the two close attempts; there is no second
  \<open>connect\<close>, to this or to another target, and no response.
\<close>

theorem handshake_only_after_dial:
  "(Handshake resp r \<in> set (trace (run cfg l en)) \<longrightarrow>
      (\<exists>avail h p. first_recv en = Received avail
         \<and> resolve_target l (take (buffer cfg) avail) = (h, p)
         \<and> socket_create en = None \<and> connect en h p = None))
   \<and> (first_recv en = Received avail' \<and> take (buffer cfg) avail' \<noteq> []
        \<and> resolve_target l (take (buffer cfg) avail') = (h', p')
        \<and> socket_create en = None \<and> connect en h' p' = Some e
      \<longrightarrow> run cfg l en =
            \<lparr>trace = [Recv Client (Received (take (buffer cfg) avail')),
                      SocketCreate None, Connect h' p' (Some e), LogError e,
                      Close Client (close_raises en 0 Client),
                      Close Target (close_raises en 0 Target)],
             finished = True\<rparr>)"
proof (intro conjI impI)
  assume hs: "Handshake resp r \<in> set (trace (run cfg l en))"
  show "\<exists>avail h p. first_recv en = Received avail
         \<and> resolve_target l (take (buffer cfg) avail) = (h, p)
         \<and> socket_create en = None \<and> connect en h p = None"
  proof (cases "first_recv en")
    case (RecvRaises e)
    with hs show ?thesis by (simp add: run_recv_raises finish_def close_def)
  next
    case (Received avail)
    show ?thesis
    proof (cases "take (buffer cfg) avail = []")
      case True
      with hs Received show ?thesis by (simp add: run_empty finish_def close_def)
    next
      case False
      obtain h p where tgt: "resolve_target l (take (buffer cfg) avail) = (h, p)"
        by (cases "resolve_target l (take (buffer cfg) avail)")
      show ?thesis
      proof (cases "socket_create en")
        case (Some e)
        with hs Received False show ?thesis
          by (simp add: run_socket_fails finish_def close_def)
      next
        case None
        show ?thesis
        proof (cases "connect en h p")
          case (Some e)
          with hs Received False tgt None show ?thesis
            by (simp add: run_connect_fails finish_def close_def)
        next
          case cn: None
          with Received tgt None show ?thesis by blast
        qed
      qed
    qed
  qed
next
  assume "first_recv en = Received avail' \<and> take (buffer cfg) avail' \<noteq> []
        \<and> resolve_target l (take (buffer cfg) avail') = (h', p')
        \<and> socket_create en = None \<and> connect en h' p' = Some e"
  then have a: "first_recv en = Received avail'" and b: "take (buffer cfg) avail' \<noteq> []"
    and c: "resolve_target l (take (buffer cfg) avail') = (h', p')"
    and d: "socket_create en = None" and f: "connect en h' p' = Some e"
    by blast+
  show "run cfg l en =
            \<lparr>trace = [Recv Client (Received (take (buffer cfg) avail')),
                      SocketCreate None, Connect h' p' (Some e), LogError e,
                      Close Client (close_raises en 0 Client),
                      Close Target (close_raises en 0 Target)],
             finished = True\<rparr>"
    unfolding run_connect_fails[OF a b c d f] by (simp add: finish_def close_def)
qed

theorem handshake_only_after_dial_witness:
  "run example_config example_listening (example_env\<lparr>connect := (\<lambda>h p. Some OSError)\<rparr>) =
     \<lparr>trace = [Recv Client (Received chunk_with_port), SocketCreate None,
               Connect (str ''example.org'') 2222 (Some OSError), LogError OSError,
               Close Client None, Close Target None],
      finished = True\<rparr>
   \<and> (\<exists>resp. Handshake resp None \<in> set (trace (run example_config example_listening example_env)))
   \<and> (\<exists>avail h p. first_recv example_env = Received avail
         \<and> resolve_target example_listening (take (buffer example_config) avail) = (h, p)
         \<and> socket_create example_env = None \<and> connect example_env h p = None)"
proof -
  let ?en = "example_env\<lparr>connect := (\<lambda>h p. Some OSError)\<rparr>"
  have tk: "take (buffer example_config) chunk_with_port = chunk_with_port"
    by (simp add: example_config_def chunk_with_port_def)
  have rt: "resolve_target example_listening chunk_with_port = (str ''example.org'', 2222)"
    by (simp add: resolve_target_def parse_headers_def parse_headers_try_def
        chunk_with_port_def eval_defs)
  have ne: "chunk_with_port \<noteq> []" by (simp add: chunk_with_port_def)
  have a: "first_recv ?en = Received chunk_with_port \<and>
           take (buffer example_config) chunk_with_port \<noteq> [] \<and>
           resolve_target example_listening (take (buffer example_config) chunk_with_port)
             = (str ''example.org'', 2222) \<and>
           socket_create ?en = None \<and> connect ?en (str ''example.org'') 2222 = Some OSError"
    unfolding tk using rt ne by (simp add: example_env_def)
  have r1: "run example_config example_listening ?en =
     \<lparr>trace = [Recv Client (Received chunk_with_port), SocketCreate None,
               Connect (str ''example.org'') 2222 (Some OSError), LogError OSError,
               Close Client None, Close Target None],
      finished = True\<rparr>"
    using handshake_only_after_dial[of _ _ example_config example_listening ?en
        chunk_with_port "str ''example.org''" 2222 OSError] a
    unfolding tk by (simp add: example_env_def)
  have fr: "first_recv example_env = Received chunk_with_port"
    and sc: "socket_create example_env = None"
    and cn: "connect example_env (str ''example.org'') 2222 = None"
    and cs: "client_send example_env = None"
    by (simp_all add: example_env_def)
  obtain resp where enc: "encode (response example_config) = Inr resp"
    by (simp add: encode_def example_config_def Config_def RESPONSE_def CRLF_def
        utf8_encode_char_def)
  have tn: "tunnel example_config example_env = ([], None)"
    by (simp add: tunnel_def example_env_def)
  have ne': "take (buffer example_config) chunk_with_port \<noteq> []"
    and rt': "resolve_target example_listening (take (buffer example_config) chunk_with_port)
              = (str ''example.org'', 2222)"
    unfolding tk using ne rt by simp_all
  have "Handshake resp None \<in> set (trace (run example_config example_listening example_env))"
    unfolding run_dialed[OF fr ne' rt' sc cn]
    by (simp add: enc cs tn Let_def)
  with handshake_only_after_dial[of resp None example_config example_listening example_env]
    r1 show ?thesis by blast
qed

text \<open>
  Claim C7. Whatever the \<open>try\<close> block of \<open>parse_headers\<close> raises (the chunk is not
  UTF-8, the routing line has no \<open>': '\<close>, its port is not a number), \<open>parse_headers\<close>
  returns no directive and raises nothing, the target is the binding's listening, and
  the session goes on to dial that target.
\<close>

theorem parse_failure_falls_back:
  assumes "parse_headers_try l data = Inl e"
  shows "parse_headers l data = None
       \<and> resolve_target l data = (listening.host l, listening.port l)
       \<and> (first_recv en = Received data \<and> data \<noteq> [] \<and> length data \<le> buffer cfg
            \<and> socket_create en = None
          \<longrightarrow> (\<exists>evs. trace (run cfg l en) =
                 [Recv Client (Received data), SocketCreate None,
                  Connect (listening.host l) (listening.port l)
                    (connect en (listening.host l) (listening.port l))] @ evs))"
proof (intro conjI impI)
  show p: "parse_headers l data = None"
    using assms by (simp add: parse_headers_def)
  then show r: "resolve_target l data = (listening.host l, listening.port l)"
    by (simp add: resolve_target_def)
  assume "first_recv en = Received data \<and> data \<noteq> [] \<and> length data \<le> buffer cfg
            \<and> socket_create en = None"
  then have a: "first_recv en = Received data" and b: "take (buffer cfg) data \<noteq> []"
    and t: "take (buffer cfg) data = data" and d: "socket_create en = None"
    by simp_all
  from r t have c: "resolve_target l (take (buffer cfg) data)
                    = (listening.host l, listening.port l)" by simp
  show "\<exists>evs. trace (run cfg l en) =
                 [Recv Client (Received data), SocketCreate None,
                  Connect (listening.host l) (listening.port l)
                    (connect en (listening.host l) (listening.port l))] @ evs"
  proof (cases "connect en (listening.host l) (listening.port l)")
    case (Some e')
    show ?thesis
      unfolding run_connect_fails[OF a b c d Some] t Some by (simp add: finish_def)
  next
    case None
    show ?thesis
      unfolding run_dialed[OF a b c d None] t None
      by (simp add: finish_def Let_def split: sum.splits option.splits prod.splits)
  qed
qed

theorem parse_failure_falls_back_witness:
  "parse_headers_try example_listening chunk_not_utf8 = Inl UnicodeDecodeError
   \<and> resolve_target example_listening chunk_not_utf8 = (str ''10.0.0.5'', 443)
   \<and> parse_headers_try example_listening chunk_no_separator = Inl IndexError
   \<and> resolve_target example_listening chunk_no_separator = (str ''10.0.0.5'', 443)
   \<and> parse_headers_try example_listening chunk_bad_then_good = Inl ValueError
   \<and> resolve_target example_listening chunk_bad_then_good = (str ''10.0.0.5'', 443)
   \<and> (\<exists>evs. trace (run example_config example_listening
                 (example_env\<lparr>first_recv := Received chunk_bad_then_good\<rparr>)) =
         [Recv Client (Received chunk_bad_then_good), SocketCreate None,
          Connect (str ''10.0.0.5'') 443 None] @ evs)"
proof -
  let ?en = "example_env\<lparr>first_recv := Received chunk_bad_then_good\<rparr>"
  have t1: "parse_headers_try example_listening chunk_not_utf8 = Inl UnicodeDecodeError"
    by (simp add: parse_headers_try_def chunk_not_utf8_def decode_def cont_def)
  have t2: "parse_headers_try example_listening chunk_no_separator = Inl IndexError"
    by (simp add: parse_headers_try_def chunk_no_separator_def eval_defs)
  have t3: "parse_headers_try example_listening chunk_bad_then_good = Inl ValueError"
    by (simp add: parse_headers_try_def chunk_bad_then_good_def eval_defs)
  have s3: "first_recv ?en = Received chunk_bad_then_good \<and> chunk_bad_then_good \<noteq> []
            \<and> length chunk_bad_then_good \<le> buffer example_config
            \<and> socket_create ?en = None"
    by (simp add: example_env_def example_config_def chunk_bad_then_good_def)
  from parse_failure_falls_back[OF t1, of example_env example_config]
       parse_failure_falls_back[OF t2, of example_env example_config]
       parse_failure_falls_back[OF t3, of ?en example_config] s3 t1 t2 t3
  show ?thesis by (simp add: example_listening_def example_env_def)
qed

section \<open>Properties of tunnel\<close>

text \<open>A read that returns bytes: the bytes pass through the socket's buffer to
  \<open>sendall\<close> on the other socket unchanged.\<close>

lemma forward_sends_what_it_read:
  assumes "recv_into it src = Received bs" and "bs \<noteq> []" and "length bs \<le> buffer cfg"
      and "length (buffer_of src s) = buffer cfg"
  shows "\<exists>s'. forward cfg it src s =
           (s', case sendall it (other src) of
                  Sent \<Rightarrow> Continue
                | SendRaises k e \<Rightarrow> if e = BlockingIOError then Continue else Raise e)
         \<and> events s' = events s @ [Recv src (Received bs),
                                   SendAll (other src) bs (sendall it (other src))]
         \<and> last_activity s' = clock it
         \<and> length (buffer_of src s') = buffer cfg"
  using assms
  by (cases src; cases "sendall it (other src)")
     (simp_all add: forward_def Let_def emit_def recv_store_def buffer_of_def)

text \<open>A read that returns no bytes leaves \<open>for sock in r\<close> and nothing else.\<close>

lemma forward_zero_bytes:
  assumes "recv_into it sk = Received []"
  shows "forward cfg it sk s = (emit (Recv sk (Received [])) s, Break)"
  using assms by (cases sk) (simp_all add: forward_def recv_store_def emit_def)

lemma forward_would_block:
  assumes "recv_into it sk = RecvRaises BlockingIOError"
  shows "forward cfg it sk s = (emit (Recv sk (RecvRaises BlockingIOError)) s, Continue)"
  using assms by (simp add: forward_def)

lemma zero_byte_read_stays_in_loop:
  assumes "select it = Inr (sk # r, w, [])"
      and "\<not> clock it - last_activity s > timeout cfg"
      and "recv_into it sk = Received []"
  shows "tunnel_loop cfg (it # its) s =
         tunnel_loop cfg its (emit (Recv sk (Received [])) s)"
  using assms by (simp add: forward_zero_bytes)

lemma for_ready_quiet:
  assumes "\<forall>sk. recv_into it sk = Received [] \<or> recv_into it sk = RecvRaises BlockingIOError"
  shows "\<exists>evs. for_ready cfg it r s = (s\<lparr>events := events s @ evs\<rparr>, None)
               \<and> (\<forall>ev\<in>set evs. \<exists>sk x. ev = Recv sk x)"
proof (induction r arbitrary: s)
  case Nil
  show ?case by (rule exI[of _ "[]"]) simp
next
  case (Cons sk r)
  from assms have "recv_into it sk = Received [] \<or> recv_into it sk = RecvRaises BlockingIOError"
    by blast
  then show ?case
  proof
    assume "recv_into it sk = Received []"
    then have "for_ready cfg it (sk # r) s
               = (s\<lparr>events := events s @ [Recv sk (Received [])]\<rparr>, None)"
      by (simp add: forward_zero_bytes emit_def)
    then show ?thesis by (intro exI[of _ "[Recv sk (Received [])]"]) simp
  next
    assume wb: "recv_into it sk = RecvRaises BlockingIOError"
    from Cons.IH[of "emit (Recv sk (RecvRaises BlockingIOError)) s"] obtain evs where
      a: "for_ready cfg it r (emit (Recv sk (RecvRaises BlockingIOError)) s)
          = ((emit (Recv sk (RecvRaises BlockingIOError)) s)
               \<lparr>events := events (emit (Recv sk (RecvRaises BlockingIOError)) s) @ evs\<rparr>, None)"
      and b: "\<forall>ev\<in>set evs. \<exists>sk x. ev = Recv sk x"
      by blast
    have "for_ready cfg it (sk # r) s
          = (s\<lparr>events := events s @ (Recv sk (RecvRaises BlockingIOError) # evs)\<rparr>, None)"
      using a wb by (simp add: forward_would_block emit_def)
    with b show ?thesis
      by (intro exI[of _ "Recv sk (RecvRaises BlockingIOError) # evs"]) simp
  qed
qed

lemma tunnel_loop_idle:
  assumes "\<forall>x\<in>set pre. (\<exists>r w. select x = Inr (r, w, []))
             \<and> (\<forall>sk. recv_into x sk = Received [] \<or> recv_into x sk = RecvRaises BlockingIOError)"
      and "select it = Inr (r, w, [])"
      and "clock it - last_activity s > timeout cfg"
  shows "\<exists>evs. tunnel_loop cfg (pre @ it # post) s = (s\<lparr>events := events s @ evs\<rparr>, Some False)
               \<and> (\<forall>ev\<in>set evs. \<exists>sk x. ev = Recv sk x)"
  using assms
proof (induction pre arbitrary: s)
  case Nil
  then have "tunnel_loop cfg ([] @ it # post) s = (s\<lparr>events := events s @ []\<rparr>, Some False)"
    by simp
  then show ?case by (intro exI[of _ "[]"]) simp
next
  case (Cons x pre)
  from Cons.prems(1) obtain r' w' where sel: "select x = Inr (r', w', [])"
    and quiet: "\<forall>sk. recv_into x sk = Received [] \<or> recv_into x sk = RecvRaises BlockingIOError"
    and rest: "\<forall>x\<in>set pre. (\<exists>r w. select x = Inr (r, w, []))
             \<and> (\<forall>sk. recv_into x sk = Received [] \<or> recv_into x sk = RecvRaises BlockingIOError)"
    by auto
  show ?case
  proof (cases "clock x - last_activity s > timeout cfg")
    case True
    with sel have "tunnel_loop cfg ((x # pre) @ it # post) s
                   = (s\<lparr>events := events s @ []\<rparr>, Some False)" by simp
    then show ?thesis by (intro exI[of _ "[]"]) simp
  next
    case False
    from for_ready_quiet[OF quiet, of cfg r' s] obtain evs1 where
      f: "for_ready cfg x r' s = (s\<lparr>events := events s @ evs1\<rparr>, None)"
      and e1: "\<forall>ev\<in>set evs1. \<exists>sk x. ev = Recv sk x"
      by blast
    define s1 where "s1 = (if r' \<noteq> [] then s\<lparr>events := events s @ evs1\<rparr> else s)"
    define evs0 where "evs0 = (if r' \<noteq> [] then evs1 else [])"
    have s1: "s1 = s\<lparr>events := events s @ evs0\<rparr>" and e0: "\<forall>ev\<in>set evs0. \<exists>sk x. ev = Recv sk x"
      using e1 by (simp_all add: s1_def evs0_def)
    have body: "(if r' \<noteq> [] then for_ready cfg x r' s else (s, None)) = (s1, None)"
      using f by (simp add: s1_def)
    show ?thesis
    proof (cases "r' = [] \<and> w' = []")
      case True
      with sel False body have "tunnel_loop cfg ((x # pre) @ it # post) s = (s1, Some False)"
        by simp
      with s1 e0 show ?thesis by blast
    next
      case nr: False
      with sel False body have step: "tunnel_loop cfg ((x # pre) @ it # post) s
                   = tunnel_loop cfg (pre @ it # post) s1"
        by auto
      have la: "clock it - last_activity s1 > timeout cfg"
        using Cons.prems(3) by (simp add: s1)
      from Cons.IH[OF rest Cons.prems(2) la] obtain evs2 where
        g: "tunnel_loop cfg (pre @ it # post) s1 = (s1\<lparr>events := events s1 @ evs2\<rparr>, Some False)"
        and e2: "\<forall>ev\<in>set evs2. \<exists>sk x. ev = Recv sk x"
        by blast
      have "tunnel_loop cfg ((x # pre) @ it # post) s
            = (s\<lparr>events := events s @ (evs0 @ evs2)\<rparr>, Some False)"
        using step g by (simp add: s1)
      moreover have "\<forall>ev\<in>set (evs0 @ evs2). \<exists>sk x. ev = Recv sk x"
        using e0 e2 by auto
      ultimately show ?thesis by blast
    qed
  qed
qed

text \<open>
  Passes that leave the session in the loop can be run first: the loop goes on from the
  state they leave.
\<close>

lemma tunnel_loop_append:
  assumes "tunnel_loop cfg its1 s = (s1, None)"
  shows "tunnel_loop cfg (its1 @ its2) s = tunnel_loop cfg its2 s1"
  using assms
proof (induction its1 arbitrary: s)
  case Nil
  then show ?case by simp
next
  case (Cons x its1)
  from Cons.prems obtain r w where sel: "select x = Inr (r, w, [])"
    by (auto split: sum.splits prod.splits if_splits)
  from Cons.prems sel have nt: "\<not> clock x - last_activity s > timeout cfg"
    by (auto split: if_splits)
  obtain s' res where fr: "(if r \<noteq> [] then for_ready cfg x r s else (s, None)) = (s', res)"
    by (cases "if r \<noteq> [] then for_ready cfg x r s else (s, None)")
  from Cons.prems sel nt fr have res: "res = None" and rw: "\<not> (r = [] \<and> w = [])"
    and rest: "tunnel_loop cfg its1 s' = (s1, None)"
    by (auto split: option.splits if_splits)
  have "tunnel_loop cfg ((x # its1) @ its2) s = tunnel_loop cfg (its1 @ its2) s'"
    using sel nt fr res rw by auto
  also have "\<dots> = tunnel_loop cfg its2 s1" by (rule Cons.IH[OF rest])
  finally show ?case .
qed

text \<open>
  \<open>last_activity\<close> is the time the loop was entered, or the clock of a pass in which a
  read returned bytes.
\<close>

lemma forward_last_activity:
  assumes "forward cfg it sk s = (s', c)"
  shows "last_activity s' = last_activity s
         \<or> (\<exists>bs. recv_into it sk = Received bs \<and> take (buffer cfg) bs \<noteq> []
                 \<and> last_activity s' = clock it)"
proof (cases "recv_into it sk")
  case (RecvRaises e)
  with assms show ?thesis by (auto simp: forward_def emit_def)
next
  case (Received bs)
  show ?thesis
  proof (cases "take (buffer cfg) bs = []")
    case True
    with assms Received show ?thesis
      by (cases sk) (auto simp: forward_def emit_def recv_store_def Let_def
          simp del: take_eq_Nil take_eq_Nil2)
  next
    case False
    with assms Received have "last_activity s' = clock it"
      by (cases sk; cases "sendall it (other sk)")
         (auto simp: forward_def emit_def recv_store_def Let_def
          simp del: take_eq_Nil take_eq_Nil2)
    with Received False show ?thesis by blast
  qed
qed

lemma for_ready_last_activity:
  assumes "for_ready cfg it r s = (s', res)"
  shows "last_activity s' = last_activity s
         \<or> (\<exists>sk bs. recv_into it sk = Received bs \<and> take (buffer cfg) bs \<noteq> []
                    \<and> last_activity s' = clock it)"
  using assms
proof (induction r arbitrary: s)
  case Nil
  then show ?case by simp
next
  case (Cons sk r)
  obtain s1 c where fw: "forward cfg it sk s = (s1, c)" by (cases "forward cfg it sk s")
  note la = forward_last_activity[OF fw]
  show ?case
  proof (cases c)
    case Continue
    with Cons.prems fw have "for_ready cfg it r s1 = (s', res)" by simp
    from Cons.IH[OF this] la show ?thesis by auto
  next
    case Break
    with Cons.prems fw have "s' = s1" by simp
    with la show ?thesis by auto
  next
    case (Raise e)
    with Cons.prems fw have "s' = s1" by simp
    with la show ?thesis by auto
  qed
qed

lemma tunnel_loop_last_activity:
  assumes "tunnel_loop cfg its s = (s', out)"
  shows "last_activity s' = last_activity s
         \<or> (\<exists>it\<in>set its. \<exists>sk bs. recv_into it sk = Received bs \<and> take (buffer cfg) bs \<noteq> []
                    \<and> last_activity s' = clock it)"
  using assms
proof (induction its arbitrary: s)
  case Nil
  then show ?case by simp
next
  case (Cons x its)
  show ?case
  proof (cases "select x")
    case (Inl ex)
    with Cons.prems show ?thesis by (auto simp: emit_def)
  next
    case (Inr t)
    obtain r w e where t: "t = (r, w, e)" by (cases t)
    show ?thesis
    proof (cases "e \<noteq> [] \<or> clock x - last_activity s > timeout cfg")
      case True
      with Cons.prems Inr t have "s' = s" by (auto split: if_splits)
      then show ?thesis by simp
    next
      case False
      obtain s1 res where fr: "(if r \<noteq> [] then for_ready cfg x r s else (s, None)) = (s1, res)"
        by (cases "if r \<noteq> [] then for_ready cfg x r s else (s, None)")
      have la: "last_activity s1 = last_activity s
         \<or> (\<exists>sk bs. recv_into x sk = Received bs \<and> take (buffer cfg) bs \<noteq> []
                    \<and> last_activity s1 = clock x)"
      proof (cases "r \<noteq> []")
        case True
        with fr have "for_ready cfg x r s = (s1, res)" by simp
        then show ?thesis by (rule for_ready_last_activity)
      next
        case False
        with fr show ?thesis by simp
      qed
      show ?thesis
      proof (cases res)
        case (Some ex)
        with Cons.prems Inr t False fr have "s' = emit (LogTunnelError ex) s1" by auto
        with la show ?thesis by (auto simp: emit_def)
      next
        case None
        show ?thesis
        proof (cases "r = [] \<and> w = []")
          case True
          with Cons.prems Inr t False fr None have "s' = s1" by auto
          with la show ?thesis by auto
        next
          case rw: False
          with Cons.prems Inr t False fr None have "tunnel_loop cfg its s1 = (s', out)"
            by auto
          from Cons.IH[OF this] la show ?thesis by auto
        qed
      qed
    qed
  qed
qed

text \<open>
  Claim C4. A session that has dialed its target and sent the response is in the relay
  loop. Let it run through any passes \<open>live\<close> that leave it in the loop, whatever they
  relay; \<open>s1\<close> is the loop's state after them, so \<open>last_activity s1\<close> is the time bytes
  were last read (or the time the loop was entered, if none were). If from then on
  \<open>select\<close> returns without an error-ready socket, no read returns bytes or raises
  anything but \<open>BlockingIOError\<close>, and at some pass the clock is more than the idle
  timeout past \<open>last_activity s1\<close>, then the loop is left with \<open>error = False\<close>, after
  the events of \<open>live\<close> nothing is forwarded and no error is logged, \<open>run\<close> ends, and
  its last two events are the attempts to close the client and the target.
\<close>

theorem idle_timeout_ends_session:
  assumes "first_recv en = Received avail" and "take (buffer cfg) avail \<noteq> []"
      and "resolve_target l (take (buffer cfg) avail) = (h, p)"
      and "socket_create en = None" and "connect en h p = None"
      and "encode (response cfg) = Inr resp" and "client_send en = None"
      and "script en = live @ pre @ it # post"
      and "tunnel_loop cfg live
             \<lparr>last_activity = start_time en,
              client_buffer = replicate (buffer cfg) (CHR 0x00),
              target_buffer = replicate (buffer cfg) (CHR 0x00),
              events = []\<rparr> = (s1, None)"
      and "\<forall>x\<in>set pre. (\<exists>r w. select x = Inr (r, w, []))
             \<and> (\<forall>sk. recv_into x sk = Received [] \<or> recv_into x sk = RecvRaises BlockingIOError)"
      and "select it = Inr (r, w, [])"
      and "clock it - last_activity s1 > timeout cfg"
  shows "snd (tunnel cfg en) = Some False
       \<and> finished (run cfg l en)
       \<and> (\<exists>evs. trace (run cfg l en) =
                   [Recv Client (Received (take (buffer cfg) avail)), SocketCreate None,
                    Connect h p None, LogConnected h p, Handshake resp None]
                   @ events s1 @ evs
                   @ [Close Client (close_raises en 0 Client),
                      Close Target (close_raises en 0 Target)]
                \<and> (\<forall>ev\<in>set evs. \<exists>sk x. ev = Recv sk x))"
proof -
  define s0 where "s0 = \<lparr>last_activity = start_time en,
                client_buffer = replicate (buffer cfg) (CHR 0x00),
                target_buffer = replicate (buffer cfg) (CHR 0x00),
                events = []\<rparr>"
  have lv: "tunnel_loop cfg live s0 = (s1, None)"
    using assms(9) by (simp add: s0_def)
  from tunnel_loop_idle[OF assms(10,11,12), of post] obtain evs where
    lp: "tunnel_loop cfg (pre @ it # post) s1 = (s1\<lparr>events := events s1 @ evs\<rparr>, Some False)"
    and rd: "\<forall>ev\<in>set evs. \<exists>sk x. ev = Recv sk x"
    by blast
  have "tunnel_loop cfg (live @ pre @ it # post) s0
        = (s1\<lparr>events := events s1 @ evs\<rparr>, Some False)"
    unfolding tunnel_loop_append[OF lv] by (rule lp)
  then have tn: "tunnel cfg en = (events s1 @ evs, Some False)"
    unfolding tunnel_def assms(8) s0_def[symmetric] by (simp add: s0_def)
  have "run cfg l en =
        finish en ([Recv Client (Received (take (buffer cfg) avail)), SocketCreate None,
                    Connect h p None, LogConnected h p] @ [Handshake resp None]
                   @ events s1 @ evs)
          None True 0"
    unfolding run_dialed[OF assms(1-5)] by (simp add: assms(6,7) tn Let_def)
  then have "finished (run cfg l en)"
    and "trace (run cfg l en) =
                   [Recv Client (Received (take (buffer cfg) avail)), SocketCreate None,
                    Connect h p None, LogConnected h p, Handshake resp None]
                   @ events s1 @ evs
                   @ [Close Client (close_raises en 0 Client),
                      Close Target (close_raises en 0 Target)]"
    by (simp_all add: finish_def close_def)
  with tn rd show ?thesis by auto
qed

theorem idle_timeout_ends_session_witness:
  "snd (tunnel example_config
          (example_env\<lparr>script := [traffic_pass, idle_pass 61]\<rparr>)) = None
   \<and> snd (tunnel example_config
          (example_env\<lparr>script := [traffic_pass, idle_pass 61, eof_pass 63, idle_pass 66]\<rparr>))
       = Some False
   \<and> finished (run example_config example_listening
          (example_env\<lparr>script := [traffic_pass, idle_pass 61, eof_pass 63, idle_pass 66]\<rparr>))
   \<and> (\<exists>resp evs. trace (run example_config example_listening
          (example_env\<lparr>script := [traffic_pass, idle_pass 61, eof_pass 63, idle_pass 66]\<rparr>)) =
         [Recv Client (Received chunk_with_port), SocketCreate None,
          Connect (str ''example.org'') 2222 None, LogConnected (str ''example.org'') 2222,
          Handshake resp None]
         @ [Recv Client (Received ''abc''), SendAll Target ''abc'' Sent]
         @ evs @ [Close Client None, Close Target None])"
proof -
  let ?en = "example_env\<lparr>script := [traffic_pass, idle_pass 61, eof_pass 63, idle_pass 66]\<rparr>"
  let ?s1 = "\<lparr>last_activity = 5,
              client_buffer = ''abc'' @ replicate 125 (CHR 0x00),
              target_buffer = replicate 128 (CHR 0x00),
              events = [Recv Client (Received ''abc''), SendAll Target ''abc'' Sent]\<rparr>"
  have tk: "take (buffer example_config) chunk_with_port = chunk_with_port"
    by (simp add: example_config_def chunk_with_port_def)
  have rt: "resolve_target example_listening chunk_with_port = (str ''example.org'', 2222)"
    by (simp add: resolve_target_def parse_headers_def parse_headers_try_def
        chunk_with_port_def eval_defs)
  have ne: "chunk_with_port \<noteq> []" by (simp add: chunk_with_port_def)
  have a1: "first_recv ?en = Received chunk_with_port" by (simp add: example_env_def)
  have a2: "take (buffer example_config) chunk_with_port \<noteq> []" unfolding tk by (rule ne)
  have a3: "resolve_target example_listening (take (buffer example_config) chunk_with_port)
            = (str ''example.org'', 2222)" unfolding tk by (rule rt)
  have a4: "socket_create ?en = None" by (simp add: example_env_def)
  have a5: "connect ?en (str ''example.org'') 2222 = None" by (simp add: example_env_def)
  obtain resp where a6: "encode (response example_config) = Inr resp"
    by (simp add: encode_def example_config_def Config_def RESPONSE_def CRLF_def
        utf8_encode_char_def)
  have a7: "client_send ?en = None" by (simp add: example_env_def)
  have a8: "script ?en = [traffic_pass, idle_pass 61] @ [eof_pass 63] @ idle_pass 66 # []"
    by simp
  have a9: "tunnel_loop example_config [traffic_pass, idle_pass 61]
             \<lparr>last_activity = start_time ?en,
              client_buffer = replicate (buffer example_config) (CHR 0x00),
              target_buffer = replicate (buffer example_config) (CHR 0x00),
              events = []\<rparr> = (?s1, None)"
    by (simp add: traffic_pass_def idle_pass_def example_env_def example_config_def
        Config_def TIMEOUT_def forward_def Let_def emit_def recv_store_def buffer_of_def
        other_def)
  have a10: "\<forall>x\<in>set [eof_pass 63]. (\<exists>r w. select x = Inr (r, w, []))
             \<and> (\<forall>sk. recv_into x sk = Received [] \<or> recv_into x sk = RecvRaises BlockingIOError)"
    by (simp add: eof_pass_def)
  have a11: "select (idle_pass 66) = Inr ([], [Client, Target], [])"
    by (simp add: idle_pass_def)
  have a12: "clock (idle_pass 66) - last_activity ?s1 > timeout example_config"
    by (simp add: idle_pass_def example_config_def Config_def TIMEOUT_def)
  have live: "snd (tunnel example_config
          (example_env\<lparr>script := [traffic_pass, idle_pass 61]\<rparr>)) = None"
    using a9 by (simp add: tunnel_def example_env_def)
  from idle_timeout_ends_session[OF a1 a2 a3 a4 a5 a6 a7 a8 a9 a10 a11 a12]
  have "snd (tunnel example_config ?en) = Some False
   \<and> finished (run example_config example_listening ?en)
   \<and> (\<exists>resp evs. trace (run example_config example_listening ?en) =
         [Recv Client (Received chunk_with_port), SocketCreate None,
          Connect (str ''example.org'') 2222 None, LogConnected (str ''example.org'') 2222,
          Handshake resp None]
         @ [Recv Client (Received ''abc''), SendAll Target ''abc'' Sent]
         @ evs @ [Close Client None, Close Target None])"
    unfolding tk by (auto simp: example_env_def)
  with live show ?thesis by blast
qed

text \<open>
  Claim C1, at a concrete input. The client side has closed: every read on it returns
  zero bytes. After two such passes, at clock 1 and 30 with the idle timeout at 60,
  the relay loop has not been left; it is left at the pass at clock 61, by the idle
  timeout.
\<close>

theorem zero_byte_read_keeps_relaying:
  "tunnel_loop small_config [eof_pass 1, eof_pass 30] example_relay =
     (example_relay\<lparr>events := [Recv Client (Received []), Recv Client (Received [])]\<rparr>, None)
   \<and> tunnel_loop small_config [eof_pass 1, eof_pass 30, eof_pass 61] example_relay =
     (example_relay\<lparr>events := [Recv Client (Received []), Recv Client (Received [])]\<rparr>,
      Some False)"
  by (simp add: small_config_def Config_def TIMEOUT_def eof_pass_def example_relay_def
      forward_def recv_store_def emit_def)

text \<open>
  Claim C5, at a concrete input. The client sends \<open>abc\<close> and then \<open>def\<close>; the first
  \<open>sendall\<close> to the target raises \<open>BlockingIOError\<close> after one byte. The loop goes on
  and forwards the second chunk: the target has received \<open>adef\<close>.
\<close>

theorem blocked_write_loses_bytes:
  "snd (tunnel_loop small_config [blocked_pass, open_pass] example_relay) = None
   \<and> events (fst (tunnel_loop small_config [blocked_pass, open_pass] example_relay)) =
       [Recv Client (Received ''abc''), SendAll Target ''abc'' (SendRaises 1 BlockingIOError),
        Recv Client (Received ''def''), SendAll Target ''def'' Sent]
   \<and> received_from Client
       (events (fst (tunnel_loop small_config [blocked_pass, open_pass] example_relay)))
       = ''abcdef''
   \<and> written_to Target
       (events (fst (tunnel_loop small_config [blocked_pass, open_pass] example_relay)))
       = ''adef''"
  by (simp add: small_config_def Config_def TIMEOUT_def blocked_pass_def open_pass_def
      example_relay_def forward_def recv_store_def emit_def buffer_of_def other_def Let_def)

end
